theory Spec2Isabelle
  imports Complex_Main
begin

section \<open>Numbers\<close>

text \<open>
  A JavaScript \<open>number\<close> is an IEEE 754 double. The arithmetic of the source is read in
  two ways.

  The functions of collision, spawning, shooting and the spatial index are read exactly:
  a number is a real, and \<open>Math.sqrt\<close>, \<open>Math.cos\<close>, \<open>Math.sin\<close>, \<open>Math.floor\<close>,
  \<open>Math.min\<close> and \<open>Math.max\<close> are \<open>sqrt\<close>, \<open>cos\<close>, \<open>sin\<close>, \<open>floor\<close>, \<open>min\<close> and
  \<open>max\<close>.

  The functions of the movement path (\<open>wrapPosition\<close>, \<open>updatePlayerMovement\<close>, the
  input pass of \<open>Room.tick\<close> and \<open>ClientPrediction\<close>) are read in double precision: a
  number is a real that is a double, and the result of every \<open>+\<close>, \<open>-\<close>, \<open>*\<close>, \<open>/\<close>
  and \<open>Math.sqrt\<close>, and every decimal literal, is rounded by \<open>f64\<close>. The names of the
  vector functions in this reading end in \<open>_f64\<close>.
\<close>

definition trunc :: "real \<Rightarrow> int" where
  "trunc r = (if 0 \<le> r then \<lfloor>r\<rfloor> else \<lceil>r\<rceil>)"

text \<open>
  The remainder operator \<open>a % b\<close> of JavaScript: the result has the sign of the dividend,
  \<open>a - b * trunc (a / b)\<close>. The remainder of two doubles is a double, so it is exact in
  both readings. For \<open>b = 0\<close> JavaScript yields NaN; the model then returns \<open>a\<close>, and no
  statement below relies on that case.
\<close>

definition fmod :: "real \<Rightarrow> real \<Rightarrow> real" where
  "fmod a b = a - b * of_int (trunc (a / b))"

text \<open>
  Rounding to double precision. For \<open>x > 0\<close>, \<open>expo x\<close> is the exponent \<open>e\<close> with
  \<open>2 ^ e \<le> x < 2 ^ (e + 1)\<close>. A double with that exponent is a multiple of
  \<open>2 ^ (e - 52)\<close>, and \<open>f64 x\<close> is the multiple nearest to \<open>x\<close>, the one with the even
  multiplier when two are equally near (round to nearest, ties to even: the rounding of
  JavaScript arithmetic). The exponent is not bounded: overflow to an infinity, subnormal
  numbers, NaN and the sign of zero are outside the model.
\<close>

function expo :: "real \<Rightarrow> int" where
  "expo x = (if x \<le> 0 then 0
             else if x < 1 then expo (2 * x) - 1
             else if 2 \<le> x then expo (x / 2) + 1
             else 0)"
  by pat_completeness auto

termination
proof (relation "measure (\<lambda>x. nat (2 * \<lceil>1 / x\<rceil> + \<lceil>x\<rceil>))", goal_cases)
  case 1
  show ?case by simp
next
  case (2 x)
  then have x: "0 < x" "x < 1" by simp_all
  have cx: "\<lceil>x\<rceil> = 1" using x by (simp add: ceiling_eq_iff)
  show ?case
  proof (cases "x \<le> 1 / 2")
    case True
    have c2: "\<lceil>2 * x\<rceil> = 1" using x True by (simp add: ceiling_eq_iff)
    have "1 / (2 * x) \<le> 1 / x - 1" using x True by (simp add: field_simps)
    then have "\<lceil>1 / (2 * x)\<rceil> \<le> \<lceil>1 / x - 1\<rceil>" by (rule ceiling_mono)
    then have "\<lceil>1 / (2 * x)\<rceil> < \<lceil>1 / x\<rceil>" by simp
    moreover have "0 < \<lceil>1 / (2 * x)\<rceil>" "0 < \<lceil>1 / x\<rceil>" using x by simp_all
    ultimately show ?thesis unfolding in_measure cx c2 by linarith
  next
    case False
    have c2: "\<lceil>2 * x\<rceil> = 2" using x False by (simp add: ceiling_eq_iff)
    have a: "\<lceil>1 / (2 * x)\<rceil> = 1" using x False by (simp add: ceiling_eq_iff field_simps)
    have b: "\<lceil>1 / x\<rceil> = 2" using x False by (simp add: ceiling_eq_iff field_simps)
    show ?thesis unfolding in_measure cx c2 a b by simp
  qed
next
  case (3 x)
  then have x: "2 \<le> x" by simp
  have a: "\<lceil>1 / x\<rceil> = 1" using x by (simp add: ceiling_eq_iff field_simps)
  have b: "\<lceil>1 / (x / 2)\<rceil> = 1" using x by (simp add: ceiling_eq_iff field_simps)
  have "x / 2 \<le> x - 1" using x by simp
  then have "\<lceil>x / 2\<rceil> \<le> \<lceil>x - 1\<rceil>" by (rule ceiling_mono)
  then have "\<lceil>x / 2\<rceil> < \<lceil>x\<rceil>" by simp
  moreover have "0 < \<lceil>x / 2\<rceil>" using x by simp
  ultimately show ?case unfolding in_measure a b by linarith
qed

declare expo.simps [simp del]

definition roundTiesToEven :: "real \<Rightarrow> int" where
  "roundTiesToEven y =
     (let n = \<lfloor>y\<rfloor>
      in if y - of_int n < 1 / 2 then n
         else if 1 / 2 < y - of_int n then n + 1
         else if even n then n else n + 1)"

definition f64 :: "real \<Rightarrow> real" where
  "f64 x = (if x = 0 then 0
            else of_int (roundTiesToEven (x * 2 powi (52 - expo \<bar>x\<bar>))) * 2 powi (expo \<bar>x\<bar> - 52))"

section \<open>Host functions\<close>

text \<open>
  \<open>Math.random\<close>, \<open>Date.now\<close>, \<open>Number.prototype.toString(36)\<close>, \<open>Math.cos\<close> and
  \<open>Math.sin\<close> belong to the JavaScript host. A \<open>Host\<close> fixes what they return:
  \<open>random H n\<close> is the result of the \<open>n\<close>-th call of \<open>Math.random\<close>, \<open>dateNow H n\<close> the
  result of the \<open>n\<close>-th call of \<open>Date.now\<close>. The number of calls made so far is part of
  the state that the functions below pass along. \<open>Math_cos H\<close> and \<open>Math_sin H\<close> are the
  doubles that the host's \<open>Math.cos\<close> and \<open>Math.sin\<close> return, which the language leaves
  to the implementation; the functions in double precision call them.
\<close>

record Host =
  random :: "nat \<Rightarrow> real"
  dateNow :: "nat \<Rightarrow> real"
  toString36 :: "real \<Rightarrow> string"
  Math_cos :: "real \<Rightarrow> real"
  Math_sin :: "real \<Rightarrow> real"

datatype error = TypeError

section \<open>shared/src/types.ts\<close>

record Vector2 =
  vec_x :: real
  vec_y :: real

record Transform =
  position :: Vector2
  rotation :: real

record Velocity =
  linearV :: Vector2
  angular :: real

text \<open>
  TypeScript types are structural: \<open>updatePlayerMovement\<close> is called with a full
  \<open>Player\<close> on the server and with an object holding only \<open>transform\<close> and
  \<open>velocity\<close> on the client. The two fields form the record \<open>Body\<close>, which
  \<open>Player\<close> and \<open>Asteroid\<close> extend. Field names that occur in several interfaces, or
  that clash with a constant of HOL, carry the name of their interface.
\<close>

record Body =
  transform :: Transform
  velocity :: Velocity

record Player = Body +
  player_id :: string
  name :: string
  health :: real
  score :: real
  lives :: real
  isAlive :: bool
  lastInputSequence :: real
  invulnerableUntil :: real
  lastShotTime :: real

datatype AsteroidSize = LARGE | MEDIUM | SMALL

record Asteroid = Body +
  asteroid_id :: string
  asteroid_size :: AsteroidSize
  radius :: real

record Bullet =
  bullet_id :: string
  playerId :: string
  bullet_transform :: Transform
  bullet_velocity :: Vector2
  createdAt :: real
  lifetime :: real

datatype ParticleType = THRUST | EXPLOSION | BULLET_HIT

record Particle =
  particle_id :: string
  particle_transform :: Transform
  particle_velocity :: Vector2
  particle_lifetime :: real
  maxLifetime :: real
  particle_type :: ParticleType

record MoveInput =
  thrust :: bool
  rotate_input :: real
  brake :: bool

record InputState = MoveInput +
  shoot :: bool

record CollisionResult =
  collided :: bool
  depth :: "real option"
  normal :: "Vector2 option"

section \<open>shared/src/constants.ts\<close>

text \<open>
  \<open>FIXED_TIMESTEP: 1 / 60\<close> and \<open>ROTATION_SPEED: 5.2\<close> are not doubles as written:
  the constants are the doubles nearest to them. The other constants are whole numbers.
\<close>

definition WORLD_WIDTH :: real where "WORLD_WIDTH = 4096"
definition WORLD_HEIGHT :: real where "WORLD_HEIGHT = 4096"
definition FIXED_TIMESTEP :: real where "FIXED_TIMESTEP = f64 (1 / 60)"

definition PLAYER_RADIUS :: real where "PLAYER_RADIUS = 8"
definition PLAYER_MAX_SPEED :: real where "PLAYER_MAX_SPEED = 420"
definition PLAYER_ACCELERATION :: real where "PLAYER_ACCELERATION = 320"
definition BRAKE_DECELERATION :: real where "BRAKE_DECELERATION = 180"
definition ROTATION_SPEED :: real where "ROTATION_SPEED = f64 (52 / 10)"
definition MAX_HEALTH :: real where "MAX_HEALTH = 100"
definition MAX_LIVES :: real where "MAX_LIVES = 3"
definition INVULNERABILITY_TIME :: real where "INVULNERABILITY_TIME = 2000"
definition FIRE_RATE :: real where "FIRE_RATE = 120"
definition BULLET_SPEED :: real where "BULLET_SPEED = 900"
definition BULLET_LIFETIME :: real where "BULLET_LIFETIME = 3000"

definition SPATIAL_HASH_CELL_SIZE :: real where "SPATIAL_HASH_CELL_SIZE = 100"

text \<open>
  \<open>ASTEROID_CONFIG[size.toUpperCase()]\<close>: the values \<open>'large'\<close>, \<open>'medium'\<close> and
  \<open>'small'\<close> of \<open>AsteroidSize\<close> in upper case are the three keys of the table, so the
  table is a function of the size.
\<close>

record AsteroidConfig =
  RADIUS :: real
  MIN_SPEED :: real
  MAX_SPEED :: real
  POINTS :: real
  SPLIT_COUNT :: nat

fun ASTEROID_CONFIG :: "AsteroidSize \<Rightarrow> AsteroidConfig" where
  "ASTEROID_CONFIG LARGE =
     \<lparr>RADIUS = 40, MIN_SPEED = 20, MAX_SPEED = 60, POINTS = 20, SPLIT_COUNT = 2\<rparr>"
| "ASTEROID_CONFIG MEDIUM =
     \<lparr>RADIUS = 20, MIN_SPEED = 40, MAX_SPEED = 100, POINTS = 50, SPLIT_COUNT = 2\<rparr>"
| "ASTEROID_CONFIG SMALL =
     \<lparr>RADIUS = 10, MIN_SPEED = 60, MAX_SPEED = 140, POINTS = 100, SPLIT_COUNT = 0\<rparr>"

text \<open>
  \<open>PARTICLE_CONFIG[type.toUpperCase()]\<close>: the keys of the table are \<open>THRUST\<close>,
  \<open>EXPLOSION\<close> and \<open>BULLET_HIT\<close>, the values of \<open>ParticleType\<close> are \<open>'thrust'\<close>,
  \<open>'explosion'\<close> and \<open>'bulletHit'\<close>. The last one in upper case is \<open>BULLETHIT\<close>, which
  is not a key: the lookup is \<open>undefined\<close> there.
\<close>

record ParticleConfig =
  LIFETIME :: real
  COUNT :: real
  SPEED_RANGE :: "real \<times> real"

fun PARTICLE_CONFIG :: "ParticleType \<Rightarrow> ParticleConfig option" where
  "PARTICLE_CONFIG THRUST = Some \<lparr>LIFETIME = 200, COUNT = 3, SPEED_RANGE = (50, 100)\<rparr>"
| "PARTICLE_CONFIG EXPLOSION = Some \<lparr>LIFETIME = 1000, COUNT = 8, SPEED_RANGE = (100, 300)\<rparr>"
| "PARTICLE_CONFIG BULLET_HIT = None"

section \<open>shared/src/math.ts\<close>

text \<open>
  The vector functions in the exact reading, as the collision, spawning and shooting
  functions call them.
\<close>

definition Vec2_zero :: Vector2 where
  "Vec2_zero = \<lparr>vec_x = 0, vec_y = 0\<rparr>"

definition Vec2_add :: "Vector2 \<Rightarrow> Vector2 \<Rightarrow> Vector2" where
  "Vec2_add a b = \<lparr>vec_x = vec_x a + vec_x b, vec_y = vec_y a + vec_y b\<rparr>"

definition Vec2_subtract :: "Vector2 \<Rightarrow> Vector2 \<Rightarrow> Vector2" where
  "Vec2_subtract a b = \<lparr>vec_x = vec_x a - vec_x b, vec_y = vec_y a - vec_y b\<rparr>"

definition Vec2_multiply :: "Vector2 \<Rightarrow> real \<Rightarrow> Vector2" where
  "Vec2_multiply v scalar = \<lparr>vec_x = vec_x v * scalar, vec_y = vec_y v * scalar\<rparr>"

definition Vec2_divide :: "Vector2 \<Rightarrow> real \<Rightarrow> Vector2" where
  "Vec2_divide v scalar = \<lparr>vec_x = vec_x v / scalar, vec_y = vec_y v / scalar\<rparr>"

definition Vec2_length :: "Vector2 \<Rightarrow> real" where
  "Vec2_length v = sqrt (vec_x v * vec_x v + vec_y v * vec_y v)"

definition Vec2_distance :: "Vector2 \<Rightarrow> Vector2 \<Rightarrow> real" where
  "Vec2_distance a b = Vec2_length (Vec2_subtract a b)"

definition Vec2_normalize :: "Vector2 \<Rightarrow> Vector2" where
  "Vec2_normalize v =
     (let len = Vec2_length v
      in if len = 0 then \<lparr>vec_x = 0, vec_y = 0\<rparr> else Vec2_divide v len)"

text \<open>
  \<open>Math.atan2(v.y, v.x)\<close> is the argument of the complex number \<open>v.x + i v.y\<close>, in
  \<open>(-\<pi>, \<pi>]\<close>, and \<open>0\<close> at the origin.
\<close>

definition Vec2_angle :: "Vector2 \<Rightarrow> real" where
  "Vec2_angle v = Arg (Complex (vec_x v) (vec_y v))"

definition Vec2_fromAngle :: "real \<Rightarrow> real \<Rightarrow> Vector2" where
  "Vec2_fromAngle angle magnitude = \<lparr>vec_x = cos angle * magnitude, vec_y = sin angle * magnitude\<rparr>"

definition circleCircleCollision :: "Vector2 \<Rightarrow> real \<Rightarrow> Vector2 \<Rightarrow> real \<Rightarrow> CollisionResult" where
  "circleCircleCollision pos1 radius1 pos2 radius2 =
     (let delta = Vec2_subtract pos2 pos1;
          distance = Vec2_length delta;
          minDistance = radius1 + radius2
      in if distance < minDistance \<and> distance > 0
         then \<lparr>collided = True, depth = Some (minDistance - distance),
               normal = Some (Vec2_normalize delta)\<rparr>
         else \<lparr>collided = False, depth = None, normal = None\<rparr>)"

text \<open>
  The vector functions that \<open>updatePlayerMovement\<close> calls, in double precision.
  \<open>Vec2.length\<close> and \<open>Vec2.lengthSquared\<close> round the two products, then their sum, and
  \<open>Math.sqrt\<close> rounds the root.
\<close>

definition Vec2_add_f64 :: "Vector2 \<Rightarrow> Vector2 \<Rightarrow> Vector2" where
  "Vec2_add_f64 a b = \<lparr>vec_x = f64 (vec_x a + vec_x b), vec_y = f64 (vec_y a + vec_y b)\<rparr>"

definition Vec2_subtract_f64 :: "Vector2 \<Rightarrow> Vector2 \<Rightarrow> Vector2" where
  "Vec2_subtract_f64 a b = \<lparr>vec_x = f64 (vec_x a - vec_x b), vec_y = f64 (vec_y a - vec_y b)\<rparr>"

definition Vec2_multiply_f64 :: "Vector2 \<Rightarrow> real \<Rightarrow> Vector2" where
  "Vec2_multiply_f64 v scalar = \<lparr>vec_x = f64 (vec_x v * scalar), vec_y = f64 (vec_y v * scalar)\<rparr>"

definition Vec2_divide_f64 :: "Vector2 \<Rightarrow> real \<Rightarrow> Vector2" where
  "Vec2_divide_f64 v scalar = \<lparr>vec_x = f64 (vec_x v / scalar), vec_y = f64 (vec_y v / scalar)\<rparr>"

definition Vec2_lengthSquared_f64 :: "Vector2 \<Rightarrow> real" where
  "Vec2_lengthSquared_f64 v = f64 (f64 (vec_x v * vec_x v) + f64 (vec_y v * vec_y v))"

definition Vec2_length_f64 :: "Vector2 \<Rightarrow> real" where
  "Vec2_length_f64 v = f64 (sqrt (f64 (f64 (vec_x v * vec_x v) + f64 (vec_y v * vec_y v))))"

definition Vec2_normalize_f64 :: "Vector2 \<Rightarrow> Vector2" where
  "Vec2_normalize_f64 v =
     (let len = Vec2_length_f64 v
      in if len = 0 then \<lparr>vec_x = 0, vec_y = 0\<rparr> else Vec2_divide_f64 v len)"

definition Vec2_fromAngle_f64 :: "Host \<Rightarrow> real \<Rightarrow> real \<Rightarrow> Vector2" where
  "Vec2_fromAngle_f64 H angle magnitude =
     \<lparr>vec_x = f64 (Math_cos H angle * magnitude), vec_y = f64 (Math_sin H angle * magnitude)\<rparr>"

definition Vec2_limitLength_f64 :: "Vector2 \<Rightarrow> real \<Rightarrow> Vector2" where
  "Vec2_limitLength_f64 v maxLength =
     (let lenSq = Vec2_lengthSquared_f64 v
      in if lenSq > f64 (maxLength * maxLength)
         then Vec2_multiply_f64 (Vec2_normalize_f64 v) maxLength
         else v)"

text \<open>
  \<open>wrapPosition\<close> in double precision: the two remainders are exact, the sum between
  them is rounded.
\<close>

definition wrapPosition :: "Vector2 \<Rightarrow> real \<Rightarrow> real \<Rightarrow> Vector2" where
  "wrapPosition pos worldWidth worldHeight =
     \<lparr>vec_x = fmod (f64 (fmod (vec_x pos) worldWidth + worldWidth)) worldWidth,
      vec_y = fmod (f64 (fmod (vec_y pos) worldHeight + worldHeight)) worldHeight\<rparr>"

section \<open>shared/src/utils.ts\<close>

text \<open>
  The module that \<open>entities\<close> and \<open>collision\<close> import \<open>generateId\<close> and
  \<open>SpatialHash\<close> from; its text follows the constants in \<open>shared/src/constants.ts\<close>.
  \<open>s.substring(2, 15)\<close> is \<open>take 13 (drop 2 s)\<close>.
\<close>

definition generateId :: "Host \<Rightarrow> nat \<Rightarrow> string \<times> nat" where
  "generateId H n =
     (take 13 (drop 2 (toString36 H (random H n)))
        @ take 13 (drop 2 (toString36 H (random H (n + 1)))),
      n + 2)"

text \<open>
  \<open>SpatialHash\<close>. A cell key is the string \<open>`${x},${y}`\<close> of two integers; the pair
  \<open>(x, y)\<close> stands for it. A bucket is a JavaScript \<open>Set\<close>, which keeps its members in
  insertion order without repetition: a list, extended by \<open>set_add\<close>. The \<open>Map\<close>s
  \<open>cells\<close> and \<open>objects\<close> are only read by key.
\<close>

record StoredObject =
  obj_position :: Vector2
  obj_radius :: real
  cellKeys :: "(int \<times> int) list"

record SpatialHash =
  cellSize :: real
  cells :: "(int \<times> int) \<rightharpoonup> string list"
  objects :: "string \<rightharpoonup> StoredObject"

definition set_add :: "'a list \<Rightarrow> 'a \<Rightarrow> 'a list" where
  "set_add xs x = (if x \<in> set xs then xs else xs @ [x])"

definition new_SpatialHash :: "real \<Rightarrow> SpatialHash" where
  "new_SpatialHash cs = \<lparr>cellSize = cs, cells = Map.empty, objects = Map.empty\<rparr>"

definition getCellsForObject :: "real \<Rightarrow> Vector2 \<Rightarrow> real \<Rightarrow> (int \<times> int) list" where
  "getCellsForObject cs pos r =
     (let minX = \<lfloor>(vec_x pos - r) / cs\<rfloor>;
          maxX = \<lfloor>(vec_x pos + r) / cs\<rfloor>;
          minY = \<lfloor>(vec_y pos - r) / cs\<rfloor>;
          maxY = \<lfloor>(vec_y pos + r) / cs\<rfloor>
      in concat (map (\<lambda>x. map (\<lambda>y. (x, y)) [minY..maxY]) [minX..maxX]))"

definition remove_from_cell :: "string \<Rightarrow> int \<times> int \<Rightarrow> SpatialHash \<Rightarrow> SpatialHash" where
  "remove_from_cell ident key h =
     (case cells h key of
        None \<Rightarrow> h
      | Some cell \<Rightarrow>
          (let cell' = removeAll ident cell
           in if cell' = [] then h\<lparr>cells := (cells h)(key := None)\<rparr>
              else h\<lparr>cells := (cells h)(key \<mapsto> cell')\<rparr>))"

definition SpatialHash_remove :: "SpatialHash \<Rightarrow> string \<Rightarrow> SpatialHash" where
  "SpatialHash_remove h ident =
     (case objects h ident of
        None \<Rightarrow> h
      | Some obj \<Rightarrow>
          (let h1 = fold (remove_from_cell ident) (cellKeys obj) h
           in h1\<lparr>objects := (objects h1)(ident := None)\<rparr>))"

definition add_to_cell :: "string \<Rightarrow> int \<times> int \<Rightarrow> SpatialHash \<Rightarrow> SpatialHash" where
  "add_to_cell ident key h =
     (let cell = (case cells h key of None \<Rightarrow> [] | Some c \<Rightarrow> c)
      in h\<lparr>cells := (cells h)(key \<mapsto> set_add cell ident)\<rparr>)"

definition SpatialHash_insert :: "SpatialHash \<Rightarrow> string \<Rightarrow> Vector2 \<Rightarrow> real \<Rightarrow> SpatialHash" where
  "SpatialHash_insert h ident pos r =
     (let h1 = SpatialHash_remove h ident;
          keys = getCellsForObject (cellSize h1) pos r;
          h2 = h1\<lparr>objects := (objects h1)(ident \<mapsto>
                   \<lparr>obj_position = pos, obj_radius = r, cellKeys = keys\<rparr>)\<rparr>
      in fold (add_to_cell ident) keys h2)"

definition SpatialHash_query :: "SpatialHash \<Rightarrow> Vector2 \<Rightarrow> real \<Rightarrow> string list" where
  "SpatialHash_query h pos r =
     fold (\<lambda>key candidates.
             case cells h key of
               None \<Rightarrow> candidates
             | Some cell \<Rightarrow> fold (\<lambda>ident cs. set_add cs ident) cell candidates)
          (getCellsForObject (cellSize h) pos r) []"

definition SpatialHash_clear :: "SpatialHash \<Rightarrow> SpatialHash" where
  "SpatialHash_clear h = h\<lparr>cells := Map.empty, objects := Map.empty\<rparr>"

section \<open>shared/src/simulation/entities.ts\<close>

text \<open>
  The module \<open>./entities.js\<close> that \<open>gameWorld.ts\<close> imports the entity functions from;
  its text is found in \<open>scripts/dev.sh\<close>.
\<close>

text \<open>
  \<open>updatePlayerMovement\<close> in double precision. \<open>a * b * c\<close> is \<open>(a * b) * c\<close>, each
  product rounded.
\<close>

definition updatePlayerMovement ::
  "Host \<Rightarrow> 'a Body_scheme \<Rightarrow> 'b MoveInput_scheme \<Rightarrow> real \<Rightarrow> 'a Body_scheme" where
  "updatePlayerMovement H player input deltaTime =
     (let rot1 = (if rotate_input input \<noteq> 0
                  then f64 (rotation (transform player)
                              + f64 (f64 (rotate_input input * ROTATION_SPEED) * deltaTime))
                  else rotation (transform player));
          v0 = linearV (velocity player);
          v1 = (if thrust input
                then Vec2_add_f64 v0
                       (Vec2_fromAngle_f64 H rot1 (f64 (PLAYER_ACCELERATION * deltaTime)))
                else v0);
          v2 = (if brake input
                then (let speed = Vec2_length_f64 v1
                      in if speed > 0
                         then (let brakeForce = f64 (BRAKE_DECELERATION * deltaTime);
                                   normalizedVel = Vec2_normalize_f64 v1;
                                   brakeVector = Vec2_multiply_f64 normalizedVel (min brakeForce speed)
                               in Vec2_subtract_f64 v1 brakeVector)
                         else v1)
                else v1);
          v3 = Vec2_limitLength_f64 v2 PLAYER_MAX_SPEED;
          deltaPos = Vec2_multiply_f64 v3 deltaTime;
          pos1 = Vec2_add_f64 (position (transform player)) deltaPos;
          pos2 = wrapPosition pos1 WORLD_WIDTH WORLD_HEIGHT
      in player\<lparr>transform := \<lparr>position = pos2, rotation = rot1\<rparr>,
                velocity := (velocity player)\<lparr>linearV := v3\<rparr>\<rparr>)"

definition randomFloat :: "Host \<Rightarrow> real \<Rightarrow> real \<Rightarrow> nat \<Rightarrow> real \<times> nat" where
  "randomFloat H lo hi n = (random H n * (hi - lo) + lo, n + 1)"

definition createAsteroid ::
  "Host \<Rightarrow> Vector2 \<Rightarrow> Vector2 \<Rightarrow> AsteroidSize \<Rightarrow> nat \<Rightarrow> Asteroid \<times> nat" where
  "createAsteroid H pos vel sz n =
     (let config = ASTEROID_CONFIG sz;
          (ident, n1) = generateId H n
      in (\<lparr>transform = \<lparr>position = pos, rotation = random H n1 * pi * 2\<rparr>,
           velocity = \<lparr>linearV = vel, angular = (random H (n1 + 1) - 1 / 2) * 4\<rparr>,
           asteroid_id = ident,
           asteroid_size = sz,
           radius = RADIUS config\<rparr>,
          n1 + 2))"

definition createBullet ::
  "Host \<Rightarrow> string \<Rightarrow> Vector2 \<Rightarrow> Vector2 \<Rightarrow> real \<Rightarrow> nat \<Rightarrow> Bullet \<times> nat" where
  "createBullet H owner pos direction timestamp n =
     (let (ident, n1) = generateId H n
      in (\<lparr>bullet_id = ident,
           playerId = owner,
           bullet_transform = \<lparr>position = pos, rotation = Vec2_angle direction\<rparr>,
           bullet_velocity = Vec2_multiply (Vec2_normalize direction) BULLET_SPEED,
           createdAt = timestamp,
           lifetime = BULLET_LIFETIME\<rparr>,
          n1))"

text \<open>
  \<open>createParticle\<close> evaluates \<open>lifetime || config.LIFETIME\<close>: the configured lifetime is
  read only when the optional argument is absent or zero, and reading it from a missing
  configuration raises a \<open>TypeError\<close>.
\<close>

definition createParticle ::
  "Host \<Rightarrow> Vector2 \<Rightarrow> Vector2 \<Rightarrow> ParticleType \<Rightarrow> real option \<Rightarrow> nat
     \<Rightarrow> error + (Particle \<times> nat)" where
  "createParticle H pos vel ty lifetime_arg n =
     (let config = PARTICLE_CONFIG ty;
          given = (case lifetime_arg of None \<Rightarrow> None
                   | Some l \<Rightarrow> if l \<noteq> 0 then Some l else None);
          particleLifetime =
            (case given of
               Some l \<Rightarrow> Inr l
             | None \<Rightarrow> (case config of None \<Rightarrow> Inl TypeError | Some c \<Rightarrow> Inr (LIFETIME c)))
      in case particleLifetime of
           Inl e \<Rightarrow> Inl e
         | Inr l \<Rightarrow>
             (let (ident, n1) = generateId H n
              in Inr (\<lparr>particle_id = ident,
                       particle_transform = \<lparr>position = pos, rotation = Vec2_angle vel\<rparr>,
                       particle_velocity = vel,
                       particle_lifetime = l,
                       maxLifetime = l,
                       particle_type = ty\<rparr>,
                      n1)))"

text \<open>
  The loop \<open>for (let i = 0; i < config.SPLIT_COUNT; i++)\<close> of \<open>splitAsteroid\<close>, run over
  the list of its indices. Each round draws the jitter of the angle and then the speed
  before \<open>createAsteroid\<close> draws the identifier, the rotation and the spin.
\<close>

fun splitAsteroid_loop ::
  "Host \<Rightarrow> Asteroid \<Rightarrow> AsteroidSize \<Rightarrow> nat \<Rightarrow> nat list \<Rightarrow> nat \<Rightarrow> Asteroid list \<times> nat" where
  "splitAsteroid_loop H asteroid newSize splitCount [] n = ([], n)"
| "splitAsteroid_loop H asteroid newSize splitCount (i # rest) n =
     (let newConfig = ASTEROID_CONFIG newSize;
          angle = (pi * 2 * real i) / real splitCount + random H n * (1 / 2);
          speed = random H (n + 1) * (MAX_SPEED newConfig - MIN_SPEED newConfig)
                    + MIN_SPEED newConfig;
          vel = Vec2_fromAngle angle speed;
          offsetDistance = radius asteroid + RADIUS newConfig + 5;
          offsetPosition = Vec2_add (position (transform asteroid))
                             (Vec2_fromAngle angle offsetDistance);
          (child, n1) = createAsteroid H offsetPosition vel newSize (n + 2);
          (children, n2) = splitAsteroid_loop H asteroid newSize splitCount rest n1
      in (child # children, n2))"

definition splitAsteroid :: "Host \<Rightarrow> Asteroid \<Rightarrow> nat \<Rightarrow> Asteroid list \<times> nat" where
  "splitAsteroid H asteroid n =
     (let config = ASTEROID_CONFIG (asteroid_size asteroid)
      in if SPLIT_COUNT config = 0 then ([], n)
         else (case asteroid_size asteroid of
                 LARGE \<Rightarrow>
                   splitAsteroid_loop H asteroid MEDIUM (SPLIT_COUNT config)
                     [0..<SPLIT_COUNT config] n
               | MEDIUM \<Rightarrow>
                   splitAsteroid_loop H asteroid SMALL (SPLIT_COUNT config)
                     [0..<SPLIT_COUNT config] n
               | SMALL \<Rightarrow> ([], n)))"

definition canPlayerShoot :: "Player \<Rightarrow> real \<Rightarrow> bool" where
  "canPlayerShoot player currentTime \<longleftrightarrow> currentTime - lastShotTime player \<ge> FIRE_RATE"

section \<open>shared/src/simulation/collision.ts\<close>

text \<open>
  A collision event carries the \<open>Player\<close> object itself, and \<open>resolveCollisions\<close> mutates
  it through the event: several events may hold the same object. Player objects therefore
  live in a store, from references to players, and an event holds a reference. Asteroids
  and bullets are only read, so an event holds their value.
\<close>

type_synonym ref = nat

record PlayerAsteroidCollision =
  pa_playerId :: string
  pa_asteroidId :: string
  pa_player :: ref
  pa_asteroid :: Asteroid

record BulletAsteroidCollision =
  ba_bulletId :: string
  ba_asteroidId :: string
  ba_bullet :: Bullet
  ba_asteroid :: Asteroid

record PlayerBulletCollision =
  pb_playerId :: string
  pb_bulletId :: string
  pb_player :: ref
  pb_bullet :: Bullet

record CollisionEvents =
  playerAsteroidCollisions :: "PlayerAsteroidCollision list"
  bulletAsteroidCollisions :: "BulletAsteroidCollision list"
  playerBulletCollisions :: "PlayerBulletCollision list"

record ScoreUpdate =
  su_playerId :: string
  points :: real

record ParticleEffect =
  effect_position :: Vector2
  effect_type :: string
  effect_count :: real

record ResolveCollisionResult =
  destroyedPlayers :: "string list"
  destroyedAsteroids :: "string list"
  destroyedBullets :: "string list"
  newAsteroids :: "Asteroid list"
  scoreUpdates :: "ScoreUpdate list"
  particleEffects :: "ParticleEffect list"

definition damagePlayerFromCollision :: "Player \<Rightarrow> real \<Rightarrow> real \<Rightarrow> bool \<times> Player" where
  "damagePlayerFromCollision player damage currentTime =
     (if currentTime < invulnerableUntil player \<or> \<not> isAlive player then (False, player)
      else (let p1 = player\<lparr>health := health player - damage\<rparr>
            in if health p1 \<le> 0
               then (True, p1\<lparr>health := 0, isAlive := False, lives := max 0 (lives p1 - 1)\<rparr>)
               else (False, p1)))"

text \<open>
  \<open>splitAsteroidFromBullet\<close> starts a dynamic import whose callback calls
  \<open>splitAsteroid\<close>; the value of that callback settles a promise nobody reads, and the
  function itself returns the empty array.
\<close>

definition splitAsteroidFromBullet :: "Asteroid \<Rightarrow> Asteroid list" where
  "splitAsteroidFromBullet asteroid = []"

definition getAsteroidScore :: "Asteroid \<Rightarrow> real" where
  "getAsteroidScore asteroid =
     (case asteroid_size asteroid of LARGE \<Rightarrow> 20 | MEDIUM \<Rightarrow> 50 | SMALL \<Rightarrow> 100)"

definition resolve_playerAsteroid ::
  "real \<Rightarrow> PlayerAsteroidCollision
     \<Rightarrow> ResolveCollisionResult \<times> (ref \<Rightarrow> Player) \<Rightarrow> ResolveCollisionResult \<times> (ref \<Rightarrow> Player)" where
  "resolve_playerAsteroid currentTime collision = (\<lambda>(result, store).
     (let (playerDestroyed, player) =
            damagePlayerFromCollision (store (pa_player collision)) 100 currentTime;
          store1 = store(pa_player collision := player)
      in if playerDestroyed
         then (result\<lparr>destroyedPlayers := destroyedPlayers result @ [pa_playerId collision],
                      particleEffects := particleEffects result @
                        [\<lparr>effect_position = position (transform player),
                          effect_type = ''explosion'', effect_count = 8\<rparr>]\<rparr>,
               store1)
         else (result, store1)))"

definition resolve_bulletAsteroid ::
  "BulletAsteroidCollision \<Rightarrow> ResolveCollisionResult \<Rightarrow> ResolveCollisionResult" where
  "resolve_bulletAsteroid collision result =
     (let bullet = ba_bullet collision;
          asteroid = ba_asteroid collision;
          r1 = result\<lparr>destroyedBullets := destroyedBullets result @ [ba_bulletId collision]\<rparr>;
          r2 = r1\<lparr>newAsteroids := newAsteroids r1 @ splitAsteroidFromBullet asteroid\<rparr>;
          r3 = r2\<lparr>destroyedAsteroids := destroyedAsteroids r2 @ [ba_asteroidId collision]\<rparr>;
          r4 = r3\<lparr>scoreUpdates := scoreUpdates r3 @
                  [\<lparr>su_playerId = playerId bullet, points = getAsteroidScore asteroid\<rparr>]\<rparr>;
          r5 = r4\<lparr>particleEffects := particleEffects r4 @
                  [\<lparr>effect_position = position (transform asteroid),
                    effect_type = ''explosion'', effect_count = 6\<rparr>]\<rparr>
      in r5\<lparr>particleEffects := particleEffects r5 @
              [\<lparr>effect_position = position (bullet_transform bullet),
                effect_type = ''bulletHit'', effect_count = 3\<rparr>]\<rparr>)"

definition resolve_playerBullet ::
  "real \<Rightarrow> PlayerBulletCollision
     \<Rightarrow> ResolveCollisionResult \<times> (ref \<Rightarrow> Player) \<Rightarrow> ResolveCollisionResult \<times> (ref \<Rightarrow> Player)" where
  "resolve_playerBullet currentTime collision = (\<lambda>(result, store).
     (let r1 = result\<lparr>destroyedBullets := destroyedBullets result @ [pb_bulletId collision]\<rparr>;
          (playerDestroyed, player) =
            damagePlayerFromCollision (store (pb_player collision)) 25 currentTime;
          store1 = store(pb_player collision := player);
          r2 = (if playerDestroyed
                then r1\<lparr>destroyedPlayers := destroyedPlayers r1 @ [pb_playerId collision],
                        particleEffects := particleEffects r1 @
                          [\<lparr>effect_position = position (transform player),
                            effect_type = ''explosion'', effect_count = 6\<rparr>]\<rparr>
                else r1)
      in (r2\<lparr>particleEffects := particleEffects r2 @
               [\<lparr>effect_position = position (bullet_transform (pb_bullet collision)),
                 effect_type = ''bulletHit'', effect_count = 2\<rparr>]\<rparr>,
          store1)))"

text \<open>
  \<open>resolveCollisions\<close> never reads its parameters \<open>players\<close>, \<open>asteroids\<close> and
  \<open>bullets\<close>; they are left out. It returns the result together with the store of the
  player objects it has mutated.
\<close>

definition resolveCollisions ::
  "CollisionEvents \<Rightarrow> (ref \<Rightarrow> Player) \<Rightarrow> real \<Rightarrow> ResolveCollisionResult \<times> (ref \<Rightarrow> Player)" where
  "resolveCollisions events store currentTime =
     (let result0 = \<lparr>destroyedPlayers = [], destroyedAsteroids = [], destroyedBullets = [],
                     newAsteroids = [], scoreUpdates = [], particleEffects = []\<rparr>;
          (result1, store1) =
             fold (resolve_playerAsteroid currentTime) (playerAsteroidCollisions events)
               (result0, store);
          result2 = fold resolve_bulletAsteroid (bulletAsteroidCollisions events) result1
      in fold (resolve_playerBullet currentTime) (playerBulletCollisions events)
           (result2, store1))"

section \<open>shared/src/simulation/gameWorld.ts\<close>

text \<open>
  The entity collections of \<open>GameWorld\<close> are \<open>Map\<close>s from identifiers to objects. The
  functions modelled here only read and write them by key. \<open>randomCalls\<close> counts the
  calls of \<open>Math.random\<close> made so far.
\<close>

record GameWorld =
  players :: "string \<rightharpoonup> Player"
  asteroids :: "string \<rightharpoonup> Asteroid"
  bullets :: "string \<rightharpoonup> Bullet"
  particles :: "string \<rightharpoonup> Particle"
  tick :: real
  lastUpdate :: real
  randomCalls :: nat

text \<open>
  \<open>shootBullet\<close> receives the player object stored under \<open>key\<close> and assigns to its
  \<open>lastShotTime\<close>. It passes a fifth argument, the player's velocity, to \<open>createBullet\<close>,
  which has four parameters: the argument is dropped.
\<close>

definition GameWorld_shootBullet ::
  "Host \<Rightarrow> GameWorld \<Rightarrow> string \<Rightarrow> Player \<Rightarrow> real \<Rightarrow> GameWorld" where
  "GameWorld_shootBullet H w key player currentTime =
     (let bulletDirection = Vec2_fromAngle (rotation (transform player)) 1;
          bulletStartPos = Vec2_add (position (transform player))
                             (Vec2_multiply bulletDirection 12);
          (bullet, n1) = createBullet H (player_id player) bulletStartPos bulletDirection
                           currentTime (randomCalls w)
      in w\<lparr>bullets := (bullets w)(bullet_id bullet \<mapsto> bullet),
            players := (players w)(key \<mapsto> player\<lparr>lastShotTime := currentTime\<rparr>),
            randomCalls := n1\<rparr>)"

definition GameWorld_processInput ::
  "Host \<Rightarrow> GameWorld \<Rightarrow> string \<Rightarrow> InputState \<Rightarrow> real \<Rightarrow> GameWorld" where
  "GameWorld_processInput H w key inp currentTime =
     (case players w key of
        None \<Rightarrow> w
      | Some player \<Rightarrow>
          if \<not> isAlive player then w
          else if shoot inp \<and> canPlayerShoot player currentTime
               then GameWorld_shootBullet H w key player currentTime
               else w)"

definition GameWorld_updatePlayerMovement ::
  "Host \<Rightarrow> GameWorld \<Rightarrow> string \<Rightarrow> InputState \<Rightarrow> real \<Rightarrow> error + GameWorld" where
  "GameWorld_updatePlayerMovement H w key inp deltaTime =
     (case players w key of
        None \<Rightarrow> Inr w
      | Some player0 \<Rightarrow>
          if \<not> isAlive player0 then Inr w
          else (let player = updatePlayerMovement H player0 inp deltaTime;
                    w1 = w\<lparr>players := (players w)(key \<mapsto> player)\<rparr>
                in if thrust inp
                   then (let thrustDirection = Vec2_fromAngle (rotation (transform player) + pi) 1;
                             thrustPosition = Vec2_add (position (transform player))
                                                (Vec2_multiply thrustDirection 8);
                             (speed, n1) = randomFloat H 50 100 (randomCalls w1);
                             thrustVelocity =
                               Vec2_add (Vec2_multiply thrustDirection speed)
                                 (Vec2_multiply (linearV (velocity player)) (1 / 2))
                         in case createParticle H thrustPosition thrustVelocity THRUST None n1 of
                              Inl e \<Rightarrow> Inl e
                            | Inr (particle, n2) \<Rightarrow>
                                Inr (w1\<lparr>particles := (particles w1)(particle_id particle \<mapsto> particle),
                                        randomCalls := n2\<rparr>))
                   else Inr w1))"

section \<open>server/src/room/Room.ts\<close>

text \<open>
  Of a \<open>ClientConnection\<close> the room loop uses the identifier, the input buffer and the
  acknowledged sequence number. Its field \<open>player\<close> is the object that
  \<open>GameWorld.addPlayer\<close> stored under the client's identifier, so \<open>client.player\<close> is
  read as \<open>players w (client_id client)\<close>.
\<close>

record ClientInputEntry =
  sequence :: real
  timestamp :: real
  entry_input :: InputState
  processed :: bool

record ClientConnection =
  client_id :: string
  inputBuffer :: "ClientInputEntry list"
  acknowledged :: real

text \<open>
  The loop over \<open>client.inputBuffer\<close> in \<open>processClientInput\<close>: it returns the world
  and the buffer with the entries it has marked.
\<close>

fun processClientInput_loop ::
  "Host \<Rightarrow> string \<Rightarrow> real \<Rightarrow> ClientInputEntry list \<Rightarrow> GameWorld
     \<Rightarrow> error + (GameWorld \<times> ClientInputEntry list)" where
  "processClientInput_loop H key deltaTime [] w = Inr (w, [])"
| "processClientInput_loop H key deltaTime (inputEntry # rest) w =
     (if \<not> processed inputEntry
      then (let w1 = GameWorld_processInput H w key (entry_input inputEntry) (timestamp inputEntry)
            in case GameWorld_updatePlayerMovement H w1 key (entry_input inputEntry) deltaTime of
                 Inl e \<Rightarrow> Inl e
               | Inr w2 \<Rightarrow>
                   (case processClientInput_loop H key deltaTime rest w2 of
                      Inl e \<Rightarrow> Inl e
                    | Inr (w3, rest') \<Rightarrow> Inr (w3, inputEntry\<lparr>processed := True\<rparr> # rest')))
      else (case processClientInput_loop H key deltaTime rest w of
              Inl e \<Rightarrow> Inl e
            | Inr (w3, rest') \<Rightarrow> Inr (w3, inputEntry # rest')))"

text \<open>
  \<open>processClientInput\<close> reads \<open>Date.now()\<close> once, after the loop; \<open>clockCalls\<close> is the
  number of calls of \<open>Date.now\<close> made before.
\<close>

definition processClientInput ::
  "Host \<Rightarrow> GameWorld \<Rightarrow> ClientConnection \<Rightarrow> real \<Rightarrow> nat
     \<Rightarrow> error + (GameWorld \<times> ClientConnection \<times> nat)" where
  "processClientInput H w client deltaTime clockCalls =
     (case players w (client_id client) of
        None \<Rightarrow> Inr (w, client, clockCalls)
      | Some player \<Rightarrow>
          if \<not> isAlive player then Inr (w, client, clockCalls)
          else (case processClientInput_loop H (client_id client) deltaTime (inputBuffer client) w of
                  Inl e \<Rightarrow> Inl e
                | Inr (w1, buffer1) \<Rightarrow>
                    (let cutoff = f64 (dateNow H clockCalls - 1000)
                     in Inr (w1,
                             client\<lparr>inputBuffer := filter (\<lambda>i. timestamp i > cutoff) buffer1\<rparr>,
                             clockCalls + 1))))"

text \<open>
  The first part of \<open>Room.tick\<close>: the tick's delta and the loop over the clients, a
  \<open>Map\<close> iterated in insertion order. The difference and the quotient of
  \<open>(now - this.lastTick) / 1000\<close> are rounded.
\<close>

record Room =
  room_clients :: "ClientConnection list"
  gameWorld :: GameWorld
  lastTick :: real
  isActive :: bool
  dateNowCalls :: nat

fun tick_clients ::
  "Host \<Rightarrow> real \<Rightarrow> ClientConnection list \<Rightarrow> GameWorld \<Rightarrow> nat
     \<Rightarrow> error + (GameWorld \<times> ClientConnection list \<times> nat)" where
  "tick_clients H deltaTime [] w clockCalls = Inr (w, [], clockCalls)"
| "tick_clients H deltaTime (client # rest) w clockCalls =
     (case processClientInput H w client deltaTime clockCalls of
        Inl e \<Rightarrow> Inl e
      | Inr (w1, client1, calls1) \<Rightarrow>
          (case tick_clients H deltaTime rest w1 calls1 of
             Inl e \<Rightarrow> Inl e
           | Inr (w2, rest', calls2) \<Rightarrow> Inr (w2, client1 # rest', calls2)))"

definition tick_processInputs :: "Host \<Rightarrow> Room \<Rightarrow> error + Room" where
  "tick_processInputs H room =
     (let now = dateNow H (dateNowCalls room);
          deltaTime = f64 (f64 (now - lastTick room) / 1000)
      in case tick_clients H deltaTime (room_clients room) (gameWorld room)
                (dateNowCalls room + 1) of
           Inl e \<Rightarrow> Inl e
         | Inr (w, clients', calls) \<Rightarrow>
             Inr (room\<lparr>lastTick := now, room_clients := clients', gameWorld := w,
                       dateNowCalls := calls\<rparr>))"

section \<open>client/src/game/ClientPrediction.ts\<close>

text \<open>
  The predicted state is the object literal built by \<open>reconcile\<close>: \<open>id\<close>, \<open>transform\<close>,
  \<open>velocity\<close> and \<open>isAlive\<close>. \<open>PredictionInput\<close> has the fields of \<open>ClientInputEntry\<close>.
\<close>

record PredictedState = Body +
  predicted_id :: string
  predicted_isAlive :: bool

record ClientPrediction =
  cp_playerId :: "string option"
  cp_inputBuffer :: "ClientInputEntry list"
  sequenceNumber :: real
  lastAcknowledgedSequence :: real
  predictedState :: "PredictedState option"

definition applyInputToState :: "Host \<Rightarrow> PredictedState \<Rightarrow> InputState \<Rightarrow> PredictedState" where
  "applyInputToState H player inp =
     (let deltaTime = FIXED_TIMESTEP;
          playerCopy = \<lparr>transform = \<lparr>position = position (transform player),
                                      rotation = rotation (transform player)\<rparr>,
                        velocity = \<lparr>linearV = linearV (velocity player),
                                    angular = angular (velocity player)\<rparr>\<rparr>;
          moved = updatePlayerMovement H playerCopy inp deltaTime
      in player\<lparr>transform := \<lparr>position = position (transform moved),
                                rotation = rotation (transform moved)\<rparr>,
                velocity := \<lparr>linearV = linearV (velocity moved),
                              angular = angular (velocity moved)\<rparr>\<rparr>)"

text \<open>
  \<open>reconcile\<close> returns early when \<open>this.playerId\<close> is undefined or the empty string, and
  when the snapshot does not hold the local player.
\<close>

definition reconcile :: "Host \<Rightarrow> ClientPrediction \<Rightarrow> Player list \<Rightarrow> ClientPrediction" where
  "reconcile H cp snapshot_players =
     (case cp_playerId cp of
        None \<Rightarrow> cp
      | Some pid \<Rightarrow>
          if pid = [] then cp
          else (case find (\<lambda>p. player_id p = pid) snapshot_players of
                  None \<Rightarrow> cp
                | Some serverPlayer \<Rightarrow>
                    (let unprocessedInputs =
                           filter (\<lambda>i. sequence i > lastAcknowledgedSequence cp) (cp_inputBuffer cp);
                         state0 = \<lparr>transform = \<lparr>position = position (transform serverPlayer),
                                                 rotation = rotation (transform serverPlayer)\<rparr>,
                                   velocity = \<lparr>linearV = linearV (velocity serverPlayer),
                                               angular = angular (velocity serverPlayer)\<rparr>,
                                   predicted_id = player_id serverPlayer,
                                   predicted_isAlive = isAlive serverPlayer\<rparr>
                     in cp\<lparr>predictedState := Some
                            (fold (\<lambda>inputEntry st.
                                     if predicted_isAlive st
                                     then applyInputToState H st (entry_input inputEntry)
                                     else st)
                                  unprocessedInputs state0)\<rparr>)))"

definition acknowledgeSequence :: "ClientPrediction \<Rightarrow> real \<Rightarrow> ClientPrediction" where
  "acknowledgeSequence cp s =
     cp\<lparr>lastAcknowledgedSequence := max (lastAcknowledgedSequence cp) s\<rparr>"

section \<open>Definitions for the statements and proofs\<close>

text \<open>
  What the input pass does to the player object for one record: the shot gate is evaluated
  at the record's timestamp, and a shot sets \<open>lastShotTime\<close> to that timestamp; then
  the player is moved with the time step \<open>dt\<close>. \<open>apply_records\<close> does this for the
  unprocessed records of a buffer, in buffer order.
\<close>

definition apply_record :: "Host \<Rightarrow> real \<Rightarrow> ClientInputEntry \<Rightarrow> Player \<Rightarrow> Player" where
  "apply_record H dt e p =
     updatePlayerMovement H
       (if shoot (entry_input e) \<and> canPlayerShoot p (timestamp e)
        then p\<lparr>lastShotTime := timestamp e\<rparr> else p)
       (entry_input e) dt"

definition apply_records :: "Host \<Rightarrow> real \<Rightarrow> ClientInputEntry list \<Rightarrow> Player \<Rightarrow> Player" where
  "apply_records H dt entries p =
     fold (apply_record H dt) (filter (\<lambda>e. \<not> processed e) entries) p"

text \<open>
  \<open>clock_reads w cs\<close>: the number of calls of \<open>Date.now\<close> that \<open>processClientInput\<close>
  makes for the clients \<open>cs\<close>, one for each client whose player is alive in \<open>w\<close>.
\<close>

definition clock_reads :: "GameWorld \<Rightarrow> ClientConnection list \<Rightarrow> nat" where
  "clock_reads w cs =
     length (filter (\<lambda>c. case players w (client_id c) of None \<Rightarrow> False | Some p \<Rightarrow> isAlive p) cs)"

text \<open>
  What \<open>processClientInput\<close> with time step \<open>dt\<close> does to one client and to the player
  stored under the client's identifier, when \<open>k\<close> calls of \<open>Date.now\<close> were made
  before: \<open>before\<close> and \<open>after\<close> are the two lookups of that player.
\<close>

definition input_phase_outcome ::
  "Host \<Rightarrow> real \<Rightarrow> nat \<Rightarrow> Player option \<Rightarrow> ClientConnection
     \<Rightarrow> Player option \<Rightarrow> ClientConnection \<Rightarrow> bool" where
  "input_phase_outcome H dt k before c after c' \<longleftrightarrow>
     (case before of
        None \<Rightarrow> c' = c \<and> after = None
      | Some p \<Rightarrow>
          if isAlive p
          then after = Some (apply_records H dt (inputBuffer c) p)
               \<and> c' = c\<lparr>inputBuffer :=
                          filter (\<lambda>e. timestamp e > f64 (dateNow H k - 1000))
                            (map (\<lambda>e. e\<lparr>processed := True\<rparr>) (inputBuffer c))\<rparr>
          else c' = c \<and> after = before)"

text \<open>
  Following the spec's words for the input pass: each unprocessed record is integrated
  with "its local delta", the time between its own timestamp and the timestamp \<open>prev\<close>
  of the client's previously processed input, in seconds.
\<close>

fun spec_replay_by_timestamp ::
  "Host \<Rightarrow> real \<Rightarrow> ClientInputEntry list \<Rightarrow> 'a Body_scheme \<Rightarrow> 'a Body_scheme" where
  "spec_replay_by_timestamp H prev [] p = p"
| "spec_replay_by_timestamp H prev (e # es) p =
     (if processed e then spec_replay_by_timestamp H (timestamp e) es p
      else spec_replay_by_timestamp H (timestamp e) es
             (updatePlayerMovement H p (entry_input e) (f64 (f64 (timestamp e - prev) / 1000))))"

text \<open>
  What one resolution pass at time \<open>t\<close> may have done to a player object that started
  the pass as \<open>p0\<close>: used as the invariant of the loops of \<open>resolveCollisions\<close>.
\<close>

definition damage_once :: "real \<Rightarrow> Player \<Rightarrow> Player \<Rightarrow> bool" where
  "damage_once t p0 p \<longleftrightarrow>
     (0 \<le> health p0 \<longrightarrow> 0 \<le> health p)
     \<and> (lives p = lives p0 \<or> (\<not> isAlive p \<and> lives p0 - 1 \<le> lives p))
     \<and> (t < invulnerableUntil p0 \<or> \<not> isAlive p0 \<longrightarrow> p = p0)"

text \<open>
  \<open>inCell h key ident\<close>: the bucket of cell \<open>key\<close> exists and holds \<open>ident\<close>.
  \<open>hash_inv\<close>: the buckets hold exactly the identifiers whose stored cell keys name
  them. \<open>insert_all\<close>: the insertion loops of \<open>CollisionSystem.update\<close>, one call of
  \<open>insert\<close> per entity.
\<close>

definition inCell :: "SpatialHash \<Rightarrow> int \<times> int \<Rightarrow> string \<Rightarrow> bool" where
  "inCell h key ident = (case cells h key of None \<Rightarrow> False | Some cell \<Rightarrow> ident \<in> set cell)"

definition hash_inv :: "SpatialHash \<Rightarrow> bool" where
  "hash_inv h \<longleftrightarrow>
     (\<forall>key ident. inCell h key ident = (case objects h ident of None \<Rightarrow> False
                                         | Some obj \<Rightarrow> key \<in> set (cellKeys obj)))"

definition insert_all :: "SpatialHash \<Rightarrow> (string \<times> Vector2 \<times> real) list \<Rightarrow> SpatialHash" where
  "insert_all h objs = fold (\<lambda>(ident, pos, r) h. SpatialHash_insert h ident pos r) objs h"

section \<open>Example states\<close>

definition example_player :: Player where
  "example_player =
     \<lparr>transform = \<lparr>position = \<lparr>vec_x = 100, vec_y = 100\<rparr>, rotation = 0\<rparr>,
      velocity = \<lparr>linearV = \<lparr>vec_x = 3, vec_y = 0\<rparr>, angular = 0\<rparr>,
      player_id = ''p1'', name = ''Ann'', health = 100, score = 0, lives = 3, isAlive = True,
      lastInputSequence = 0, invulnerableUntil = 0, lastShotTime = 0\<rparr>"

definition example_asteroid :: Asteroid where
  "example_asteroid =
     \<lparr>transform = \<lparr>position = \<lparr>vec_x = 100, vec_y = 100\<rparr>, rotation = 0\<rparr>,
      velocity = \<lparr>linearV = \<lparr>vec_x = 0, vec_y = 0\<rparr>, angular = 0\<rparr>,
      asteroid_id = ''a1'', asteroid_size = LARGE, radius = 40\<rparr>"

definition example_bullet :: Bullet where
  "example_bullet =
     \<lparr>bullet_id = ''b1'', playerId = ''p1'',
      bullet_transform = \<lparr>position = \<lparr>vec_x = 100, vec_y = 100\<rparr>, rotation = 0\<rparr>,
      bullet_velocity = \<lparr>vec_x = 900, vec_y = 0\<rparr>, createdAt = 0, lifetime = 3000\<rparr>"

definition example_events :: CollisionEvents where
  "example_events =
     \<lparr>playerAsteroidCollisions = [],
      bulletAsteroidCollisions =
        [\<lparr>ba_bulletId = ''b1'', ba_asteroidId = ''a1'',
          ba_bullet = example_bullet, ba_asteroid = example_asteroid\<rparr>],
      playerBulletCollisions = []\<rparr>"

definition example_hits :: CollisionEvents where
  "example_hits =
     \<lparr>playerAsteroidCollisions =
        [\<lparr>pa_playerId = ''p1'', pa_asteroidId = ''a1'', pa_player = 0, pa_asteroid = example_asteroid\<rparr>,
         \<lparr>pa_playerId = ''p1'', pa_asteroidId = ''a2'', pa_player = 0, pa_asteroid = example_asteroid\<rparr>],
      bulletAsteroidCollisions = [],
      playerBulletCollisions =
        [\<lparr>pb_playerId = ''p1'', pb_bulletId = ''b1'', pb_player = 0, pb_bullet = example_bullet\<rparr>]\<rparr>"

definition example_host :: Host where
  "example_host = \<lparr>random = (\<lambda>_. 1 / 2), dateNow = (\<lambda>n. 5000 + 100 * real n),
                    toString36 = (\<lambda>_. ''0.i''),
                    Math_cos = (\<lambda>x. f64 (cos x)), Math_sin = (\<lambda>x. f64 (sin x))\<rparr>"

definition example_world :: GameWorld where
  "example_world =
     \<lparr>players = [''p1'' \<mapsto> example_player], asteroids = Map.empty, bullets = Map.empty,
      particles = Map.empty, tick = 0, lastUpdate = 0, randomCalls = 0\<rparr>"

definition example_shoot :: InputState where
  "example_shoot = \<lparr>thrust = False, rotate_input = 0, brake = False, shoot = True\<rparr>"

definition example_idle :: InputState where
  "example_idle = \<lparr>thrust = False, rotate_input = 0, brake = False, shoot = False\<rparr>"

definition example_entries :: "ClientInputEntry list" where
  "example_entries =
     [\<lparr>sequence = 1, timestamp = 4950, entry_input = example_idle, processed = True\<rparr>,
      \<lparr>sequence = 2, timestamp = 4960, entry_input = example_shoot, processed = False\<rparr>,
      \<lparr>sequence = 3, timestamp = 4970, entry_input = example_shoot, processed = False\<rparr>]"

definition example_client :: ClientConnection where
  "example_client = \<lparr>client_id = ''p1'', inputBuffer = example_entries, acknowledged = 3\<rparr>"

definition example_prediction :: ClientPrediction where
  "example_prediction =
     \<lparr>cp_playerId = Some ''p1'', cp_inputBuffer = example_entries, sequenceNumber = 3,
      lastAcknowledgedSequence = 1, predictedState = None\<rparr>"

definition example_room :: Room where
  "example_room =
     \<lparr>room_clients = [example_client], gameWorld = example_world, lastTick = 4983,
      isActive = True, dateNowCalls = 0\<rparr>"




definition example_objects :: "(string \<times> Vector2 \<times> real) list" where
  "example_objects =
     [(''asteroid_a1'', \<lparr>vec_x = 100, vec_y = 100\<rparr>, 40),
      (''bullet_b1'', \<lparr>vec_x = 500, vec_y = 500\<rparr>, 2)]"

section \<open>Facts about rounding to double precision\<close>

lemma expo_bounds:
  "0 < x \<Longrightarrow> 2 powi expo x \<le> x \<and> x < 2 powi (expo x + 1)"
proof (induction x rule: expo.induct)
  case (1 x)
  show ?case
  proof (cases "x < 1")
    case True
    have e: "expo x = expo (2 * x) - 1"
      using 1(3) True by (subst expo.simps) simp
    have ih: "2 powi expo (2 * x) \<le> 2 * x \<and> 2 * x < 2 powi (expo (2 * x) + 1)"
      using 1(1)[OF _ True] 1(3) by simp
    have a: "(2::real) powi (expo (2 * x) - 1) = 2 powi expo (2 * x) / 2"
      by (simp add: power_int_diff)
    have b: "(2::real) powi (expo (2 * x) + 1) = 2 powi expo (2 * x) * 2"
      by (simp add: power_int_add)
    show ?thesis using ih unfolding e a b by simp
  next
    case False
    show ?thesis
    proof (cases "2 \<le> x")
      case True
      have e: "expo x = expo (x / 2) + 1"
        using 1(3) False True by (subst expo.simps) simp
      have ih: "2 powi expo (x / 2) \<le> x / 2 \<and> x / 2 < 2 powi (expo (x / 2) + 1)"
        using 1(2)[OF _ False True] 1(3) by simp
      have b: "(2::real) powi (expo (x / 2) + 1) = 2 powi expo (x / 2) * 2"
        "(2::real) powi (expo (x / 2) + 1 + 1) = 2 powi expo (x / 2) * 2 * 2"
        by (simp_all add: power_int_add)
      show ?thesis using ih unfolding e b by simp
    next
      case F2: False
      have e: "expo x = 0" using 1(3) False F2 by (subst expo.simps) simp
      show ?thesis using False F2 by (simp add: e)
    qed
  qed
qed


lemma expo_mono:
  assumes "0 < x" "x \<le> y"
  shows "expo x \<le> expo y"
proof (rule ccontr)
  assume "\<not> expo x \<le> expo y"
  then have "expo y + 1 \<le> expo x" by simp
  then have "(2::real) powi (expo y + 1) \<le> 2 powi expo x"
    by (intro power_int_increasing) simp_all
  moreover have "0 < y" using assms by simp
  ultimately show False using expo_bounds[OF assms(1)] expo_bounds[OF \<open>0 < y\<close>] assms(2) by simp
qed

lemma roundTiesToEven_cases:
  "roundTiesToEven y = \<lfloor>y\<rfloor> \<or> roundTiesToEven y = \<lfloor>y\<rfloor> + 1"
  by (simp add: roundTiesToEven_def Let_def)

lemma roundTiesToEven_of_int: "roundTiesToEven (of_int n) = n"
  by (simp add: roundTiesToEven_def)


lemma roundTiesToEven_mono:
  assumes "y \<le> z"
  shows "roundTiesToEven y \<le> roundTiesToEven z"
proof (cases "\<lfloor>y\<rfloor> = \<lfloor>z\<rfloor>")
  case True
  then show ?thesis using assms by (auto simp: roundTiesToEven_def Let_def)
next
  case False
  moreover have "\<lfloor>y\<rfloor> \<le> \<lfloor>z\<rfloor>" using assms by (rule floor_mono)
  ultimately have "\<lfloor>y\<rfloor> + 1 \<le> \<lfloor>z\<rfloor>" by simp
  moreover have "roundTiesToEven y \<le> \<lfloor>y\<rfloor> + 1" using roundTiesToEven_cases[of y] by auto
  moreover have "\<lfloor>z\<rfloor> \<le> roundTiesToEven z" using roundTiesToEven_cases[of z] by auto
  ultimately show ?thesis by simp
qed

lemma roundTiesToEven_minus: "roundTiesToEven (- y) = - roundTiesToEven y"
proof (cases "y \<in> \<int>")
  case True
  then obtain n where "y = of_int n" by (auto elim: Ints_cases)
  then have "- y = of_int (- n)" by simp
  then show ?thesis unfolding \<open>y = of_int n\<close> by (simp only: roundTiesToEven_of_int)
next
  case False
  then have "y \<noteq> of_int \<lfloor>y\<rfloor>" by (metis Ints_of_int)
  then have c: "\<lceil>y\<rceil> = \<lfloor>y\<rfloor> + 1" by (simp add: ceiling_altdef)
  have f: "\<lfloor>- y\<rfloor> = - \<lfloor>y\<rfloor> - 1" using c by (simp add: floor_minus)
  have "of_int \<lfloor>y\<rfloor> \<le> y" "y < of_int \<lfloor>y\<rfloor> + 1" by linarith+
  then show ?thesis
    by (auto simp: roundTiesToEven_def Let_def f)
qed

lemma f64_scaled:
  assumes "0 < x"
  shows "2 ^ 52 \<le> x * 2 powi (52 - expo x)" "x * 2 powi (52 - expo x) < 2 ^ 53"
proof -
  note b = expo_bounds[OF assms]
  have p: "(0::real) < 2 powi (52 - expo x)" by simp
  have lo: "(2::real) powi expo x * 2 powi (52 - expo x) = 2 ^ 52"
    by (simp add: power_int_add[symmetric])
  have hi: "(2::real) powi (expo x + 1) * 2 powi (52 - expo x) = 2 ^ 53"
    by (simp add: power_int_add[symmetric])
  have "2 powi expo x * 2 powi (52 - expo x) \<le> x * 2 powi (52 - expo x)"
    using b p by (intro mult_right_mono) simp_all
  then show "2 ^ 52 \<le> x * 2 powi (52 - expo x)" unfolding lo .
  have "x * 2 powi (52 - expo x) < 2 powi (expo x + 1) * 2 powi (52 - expo x)"
    using b p by (intro mult_strict_right_mono) simp_all
  then show "x * 2 powi (52 - expo x) < 2 ^ 53" unfolding hi .
qed

lemma f64_pos_unfold:
  assumes "0 < x"
  shows "f64 x = of_int (roundTiesToEven (x * 2 powi (52 - expo x))) * 2 powi (expo x - 52)"
  using assms by (simp add: f64_def)

lemma f64_binade:
  assumes "0 < x"
  shows "2 powi expo x \<le> f64 x" "f64 x \<le> 2 powi (expo x + 1)"
proof -
  let ?y = "x * 2 powi (52 - expo x)"
  have "roundTiesToEven (of_int (2 ^ 52)) \<le> roundTiesToEven ?y"
    using f64_scaled(1)[OF assms] by (intro roundTiesToEven_mono) simp
  then have lo: "2 ^ 52 \<le> roundTiesToEven ?y" by (simp only: roundTiesToEven_of_int)
  have "roundTiesToEven ?y \<le> roundTiesToEven (of_int (2 ^ 53))"
    using f64_scaled(2)[OF assms] by (intro roundTiesToEven_mono) simp
  then have hi: "roundTiesToEven ?y \<le> 2 ^ 53" by (simp only: roundTiesToEven_of_int)
  have p: "(0::real) \<le> 2 powi (expo x - 52)" by simp
  have e1: "(2::real) ^ 52 * 2 powi (expo x - 52) = 2 powi expo x"
  proof -
    have "(2::real) powi 52 * 2 powi (expo x - 52) = 2 powi (52 + (expo x - 52))"
      by (rule power_int_add[symmetric]) simp
    then show ?thesis by simp
  qed
  have e2: "(2::real) ^ 53 * 2 powi (expo x - 52) = 2 powi (expo x + 1)"
  proof -
    have "(2::real) powi 53 * 2 powi (expo x - 52) = 2 powi (53 + (expo x - 52))"
      by (rule power_int_add[symmetric]) simp
    then show ?thesis by (simp add: add.commute)
  qed
  have "(2::real) ^ 52 \<le> of_int (roundTiesToEven ?y)" using lo by (metis of_int_le_iff of_int_numeral of_int_power)
  then have "(2::real) ^ 52 * 2 powi (expo x - 52) \<le> of_int (roundTiesToEven ?y) * 2 powi (expo x - 52)"
    using p by (rule mult_right_mono)
  then show "2 powi expo x \<le> f64 x" unfolding e1 f64_pos_unfold[OF assms] .
  have "of_int (roundTiesToEven ?y) \<le> (2::real) ^ 53" using hi by (metis of_int_le_iff of_int_numeral of_int_power)
  then have "of_int (roundTiesToEven ?y) * 2 powi (expo x - 52) \<le> (2::real) ^ 53 * 2 powi (expo x - 52)"
    using p by (rule mult_right_mono)
  then show "f64 x \<le> 2 powi (expo x + 1)" unfolding e2 f64_pos_unfold[OF assms] .
qed

lemma f64_zero: "f64 0 = 0"
  by (simp add: f64_def)

lemma f64_minus: "f64 (- x) = - f64 x"
  by (simp add: f64_def roundTiesToEven_minus)

lemma f64_pos: "0 < x \<Longrightarrow> 0 < f64 x"
proof -
  assume x: "0 < x"
  have "(0::real) < 2 powi expo x" by simp
  with f64_binade(1)[OF x] show ?thesis by linarith
qed

lemma f64_nonneg: "0 \<le> x \<Longrightarrow> 0 \<le> f64 x"
  using f64_pos[of x] by (cases "x = 0") (simp_all add: f64_zero less_eq_real_def)

lemma f64_mono_pos:
  assumes "0 < x" "x \<le> y"
  shows "f64 x \<le> f64 y"
proof -
  have y: "0 < y" using assms by simp
  have le: "expo x \<le> expo y" using assms by (rule expo_mono)
  show ?thesis
  proof (cases "expo x = expo y")
    case True
    have "x * 2 powi (52 - expo x) \<le> y * 2 powi (52 - expo x)"
      using assms(2) by (intro mult_right_mono) simp_all
    then have "roundTiesToEven (x * 2 powi (52 - expo x)) \<le> roundTiesToEven (y * 2 powi (52 - expo x))"
      by (rule roundTiesToEven_mono)
    then have "(of_int (roundTiesToEven (x * 2 powi (52 - expo x))) :: real)
        \<le> of_int (roundTiesToEven (y * 2 powi (52 - expo x)))"
      by simp
    then have "of_int (roundTiesToEven (x * 2 powi (52 - expo x))) * 2 powi (expo x - 52)
        \<le> of_int (roundTiesToEven (y * 2 powi (52 - expo x))) * (2::real) powi (expo x - 52)"
      by (intro mult_right_mono) simp_all
    then show ?thesis
      unfolding f64_pos_unfold[OF assms(1)] f64_pos_unfold[OF y] True .
  next
    case False
    with le have "expo x + 1 \<le> expo y" by simp
    then have "(2::real) powi (expo x + 1) \<le> 2 powi expo y"
      by (intro power_int_increasing) simp_all
    with f64_binade(2)[OF assms(1)] f64_binade(1)[OF y] show ?thesis by linarith
  qed
qed

lemma f64_mono:
  assumes "x \<le> y"
  shows "f64 x \<le> f64 y"
proof -
  consider "0 < x" | "x \<le> 0" "0 \<le> y" | "y < 0" using assms by linarith
  then show ?thesis
  proof cases
    case 1
    then show ?thesis using assms by (rule f64_mono_pos)
  next
    case 2
    have "0 \<le> f64 (- x)" using 2(1) by (intro f64_nonneg) simp
    then have "f64 x \<le> 0" by (simp add: f64_minus)
    moreover have "0 \<le> f64 y" using 2(2) by (rule f64_nonneg)
    ultimately show ?thesis by simp
  next
    case 3
    have "f64 (- y) \<le> f64 (- x)" using 3 assms by (intro f64_mono_pos) simp_all
    then show ?thesis by (simp add: f64_minus)
  qed
qed


lemma f64_of_int_Ints: "f64 (of_int k) \<in> \<int>"
proof (cases "k = 0")
  case True
  then show ?thesis by (simp add: f64_zero)
next
  case False
  define x :: real where "x = \<bar>of_int k\<bar>"
  have x1: "1 \<le> x" using False by (simp add: x_def)
  then have x0: "0 < x" by simp
  have e0: "0 \<le> expo x"
  proof -
    have "expo 1 \<le> expo x" using x1 by (intro expo_mono) simp_all
    moreover have "expo 1 = 0" by (simp add: expo.simps)
    ultimately show ?thesis by simp
  qed
  have xi: "x = of_int \<bar>k\<bar>" by (simp add: x_def)
  have "f64 x \<in> \<int>"
  proof (cases "expo x \<le> 52")
    case True
    have "(2::real) powi (52 - expo x) = 2 ^ nat (52 - expo x)"
      using True by (simp add: power_int_def)
    then have "x * 2 powi (52 - expo x) = of_int (\<bar>k\<bar> * 2 ^ nat (52 - expo x))"
      by (simp add: xi)
    then have "roundTiesToEven (x * 2 powi (52 - expo x)) = \<bar>k\<bar> * 2 ^ nat (52 - expo x)"
      by (simp only: roundTiesToEven_of_int)
    then have "f64 x = of_int (\<bar>k\<bar> * 2 ^ nat (52 - expo x)) * 2 powi (expo x - 52)"
      unfolding f64_pos_unfold[OF x0] by simp
    also have "\<dots> = of_int \<bar>k\<bar> * (2 powi (52 - expo x) * 2 powi (expo x - 52))"
      using True by (simp add: power_int_def)
    also have "\<dots> = of_int \<bar>k\<bar>" by (simp add: power_int_add[symmetric])
    finally show ?thesis by simp
  next
    case False
    then have "(2::real) powi (expo x - 52) = of_int (2 ^ nat (expo x - 52))"
      by (simp add: power_int_def)
    then show ?thesis unfolding f64_pos_unfold[OF x0] by (simp only: Ints_mult Ints_of_int)
  qed
  moreover have "f64 (of_int k) = f64 x \<or> f64 (of_int k) = - f64 x"
    using f64_minus[of "of_int k"] by (cases "0 \<le> k") (auto simp: x_def abs_if)
  ultimately show ?thesis by auto
qed

lemmas f64_eval = f64_def expo.simps roundTiesToEven_def

section \<open>Facts about the vector utilities\<close>

















lemma Vec2_length_nonneg: "0 \<le> Vec2_length v"
  by (simp add: Vec2_length_def)

lemma Vec2_distance_commute: "Vec2_distance a b = Vec2_distance b a"
proof -
  have "(vec_x a - vec_x b) * (vec_x a - vec_x b) = (vec_x b - vec_x a) * (vec_x b - vec_x a)"
       "(vec_y a - vec_y b) * (vec_y a - vec_y b) = (vec_y b - vec_y a) * (vec_y b - vec_y a)"
    by (simp_all add: algebra_simps)
  then show ?thesis
    by (simp add: Vec2_distance_def Vec2_length_def Vec2_subtract_def)
qed

lemma Vec2_length_divide_self:
  assumes "Vec2_length v \<noteq> 0"
  shows "Vec2_length (Vec2_divide v (Vec2_length v)) = 1"
proof -
  define s where "s = vec_x v * vec_x v + vec_y v * vec_y v"
  define l where "l = sqrt s"
  have s0: "0 \<le> s" by (simp add: s_def)
  have l0: "l \<noteq> 0" using assms by (simp add: l_def s_def Vec2_length_def)
  have ll: "l * l = s" using s0 by (simp add: l_def)
  have "vec_x v / l * (vec_x v / l) + vec_y v / l * (vec_y v / l) = s / (l * l)"
    by (simp add: s_def add_divide_distrib)
  also have "\<dots> = (l * l) / (l * l)" by (simp only: ll)
  also have "\<dots> = 1" using l0 by simp
  finally have one: "vec_x v / l * (vec_x v / l) + vec_y v / l * (vec_y v / l) = 1" .
  have "Vec2_length (Vec2_divide v (Vec2_length v))
        = sqrt (vec_x v / l * (vec_x v / l) + vec_y v / l * (vec_y v / l))"
    by (simp add: Vec2_length_def Vec2_divide_def l_def s_def)
  also have "\<dots> = 1" by (simp only: one real_sqrt_one)
  finally show ?thesis .
qed

lemma Vec2_normalize_nonzero:
  "Vec2_length v \<noteq> 0 \<Longrightarrow> Vec2_normalize v = Vec2_divide v (Vec2_length v)"
  by (simp add: Vec2_normalize_def)

text \<open>
  C9. \<open>circleCircleCollision\<close> reports no collision exactly when the distance between the
  centres is \<open>0\<close> or at least \<open>r1 + r2\<close>. When it reports a collision, the depth is
  \<open>(r1 + r2) - distance\<close>, the length of the vector from \<open>c1\<close> to \<open>c2\<close> that
  \<open>Vec2.normalize\<close> divides by is not zero, and the normal is that vector divided by its
  length, a vector of length one.
\<close>

theorem circleCircleCollision_cases:
  "(\<not> collided (circleCircleCollision c1 r1 c2 r2)
      \<longleftrightarrow> Vec2_distance c1 c2 = 0 \<or> r1 + r2 \<le> Vec2_distance c1 c2)
   \<and> (collided (circleCircleCollision c1 r1 c2 r2) \<longrightarrow>
        depth (circleCircleCollision c1 r1 c2 r2) = Some ((r1 + r2) - Vec2_distance c1 c2)
        \<and> Vec2_length (Vec2_subtract c2 c1) \<noteq> 0
        \<and> normal (circleCircleCollision c1 r1 c2 r2)
            = Some (Vec2_divide (Vec2_subtract c2 c1) (Vec2_length (Vec2_subtract c2 c1)))
        \<and> Vec2_length (the (normal (circleCircleCollision c1 r1 c2 r2))) = 1)"
proof -
  define d where "d = Vec2_length (Vec2_subtract c2 c1)"
  have d_dist: "Vec2_distance c1 c2 = d"
    using Vec2_distance_commute[of c1 c2] by (simp add: d_def Vec2_distance_def)
  have d0: "0 \<le> d" by (simp add: d_def Vec2_length_nonneg)
  have res: "circleCircleCollision c1 r1 c2 r2 =
      (if d < r1 + r2 \<and> 0 < d
       then \<lparr>collided = True, depth = Some (r1 + r2 - d),
             normal = Some (Vec2_normalize (Vec2_subtract c2 c1))\<rparr>
       else \<lparr>collided = False, depth = None, normal = None\<rparr>)"
    by (simp add: circleCircleCollision_def Let_def d_def)
  show ?thesis
  proof (cases "d < r1 + r2 \<and> 0 < d")
    case True
    then have nz: "Vec2_length (Vec2_subtract c2 c1) \<noteq> 0" by (simp add: d_def)
    from True show ?thesis
      using Vec2_normalize_nonzero[OF nz] Vec2_length_divide_self[OF nz]
      by (simp add: res d_dist) (simp add: d_def)
  next
    case False
    then show ?thesis using d0 by (auto simp: res d_dist)
  qed
qed

theorem circleCircleCollision_cases_witness:
  "collided (circleCircleCollision \<lparr>vec_x = 0, vec_y = 0\<rparr> 3 \<lparr>vec_x = 3, vec_y = 4\<rparr> 3)
   \<and> depth (circleCircleCollision \<lparr>vec_x = 0, vec_y = 0\<rparr> 3 \<lparr>vec_x = 3, vec_y = 4\<rparr> 3) = Some 1
   \<and> normal (circleCircleCollision \<lparr>vec_x = 0, vec_y = 0\<rparr> 3 \<lparr>vec_x = 3, vec_y = 4\<rparr> 3)
       = Some \<lparr>vec_x = 3 / 5, vec_y = 4 / 5\<rparr>
   \<and> \<not> collided (circleCircleCollision \<lparr>vec_x = 7, vec_y = 7\<rparr> 3 \<lparr>vec_x = 7, vec_y = 7\<rparr> 3)"
proof -
  have d: "Vec2_distance \<lparr>vec_x = 0, vec_y = 0\<rparr> \<lparr>vec_x = 3, vec_y = 4\<rparr> = 5"
          "Vec2_length (Vec2_subtract \<lparr>vec_x = 3, vec_y = 4\<rparr> \<lparr>vec_x = 0, vec_y = 0\<rparr>) = 5"
          "Vec2_distance \<lparr>vec_x = 7, vec_y = 7\<rparr> \<lparr>vec_x = 7, vec_y = 7\<rparr> = 0"
          "Vec2_length \<lparr>vec_x = 3, vec_y = 4\<rparr> = 5"
    by (simp_all add: Vec2_distance_def Vec2_length_def Vec2_subtract_def)
  show ?thesis
    using circleCircleCollision_cases[of "\<lparr>vec_x = 0, vec_y = 0\<rparr>" 3 "\<lparr>vec_x = 3, vec_y = 4\<rparr>" 3]
      circleCircleCollision_cases[of "\<lparr>vec_x = 7, vec_y = 7\<rparr>" 3 "\<lparr>vec_x = 7, vec_y = 7\<rparr>" 3]
    by (simp add: d Vec2_divide_def Vec2_subtract_def)
qed

section \<open>Player movement\<close>







lemma FIXED_TIMESTEP_value: "FIXED_TIMESTEP = 4803839602528529 / 288230376151711744"
  by (simp add: FIXED_TIMESTEP_def f64_eval)















section \<open>Collision resolution\<close>

lemma damage_gate:
  "currentTime < invulnerableUntil p \<or> \<not> isAlive p
     \<Longrightarrow> damagePlayerFromCollision p d currentTime = (False, p)"
  by (simp add: damagePlayerFromCollision_def)

lemma damage_applied:
  assumes "\<not> currentTime < invulnerableUntil p" "isAlive p"
  shows "damagePlayerFromCollision p d currentTime =
     (if health p - d \<le> 0
      then (True, p\<lparr>health := 0, isAlive := False, lives := max 0 (lives p - 1)\<rparr>)
      else (False, p\<lparr>health := health p - d\<rparr>))"
  using assms by (simp add: damagePlayerFromCollision_def Let_def)

lemma damage_once_refl: "damage_once t p p"
  by (simp add: damage_once_def)

lemma damage_once_step:
  assumes "damage_once t p0 p"
  shows "damage_once t p0 (snd (damagePlayerFromCollision p d t))"
proof (cases "t < invulnerableUntil p \<or> \<not> isAlive p")
  case True
  then show ?thesis using assms by (simp add: damage_gate)
next
  case False
  then have a: "\<not> t < invulnerableUntil p" "isAlive p" by simp_all
  have alive0: "isAlive p0" using assms a(2) by (auto simp: damage_once_def)
  have l: "lives p = lives p0" using assms a(2) by (auto simp: damage_once_def)
  have ninv0: "\<not> t < invulnerableUntil p0" using assms a(1) by (auto simp: damage_once_def)
  show ?thesis
    using assms alive0 ninv0 l by (auto simp: damage_applied[OF a] damage_once_def)
qed

lemma snd_resolve_playerAsteroid:
  "snd (resolve_playerAsteroid t c (res, st))
     = st(pa_player c := snd (damagePlayerFromCollision (st (pa_player c)) 100 t))"
  by (simp add: resolve_playerAsteroid_def Let_def split: prod.splits)

lemma snd_resolve_playerBullet:
  "snd (resolve_playerBullet t c (res, st))
     = st(pb_player c := snd (damagePlayerFromCollision (st (pb_player c)) 25 t))"
  by (simp add: resolve_playerBullet_def Let_def split: prod.splits)

lemma fold_playerAsteroid_once:
  "\<forall>r. damage_once t (st0 r) (st r)
     \<Longrightarrow> \<forall>r. damage_once t (st0 r) (snd (fold (resolve_playerAsteroid t) cs (res, st)) r)"
proof (induction cs arbitrary: res st)
  case Nil
  then show ?case by simp
next
  case (Cons c cs)
  obtain res1 st1 where step: "resolve_playerAsteroid t c (res, st) = (res1, st1)"
    by (cases "resolve_playerAsteroid t c (res, st)")
  have "st1 = st(pa_player c := snd (damagePlayerFromCollision (st (pa_player c)) 100 t))"
    using snd_resolve_playerAsteroid[of t c res st] step by simp
  then have "\<forall>r. damage_once t (st0 r) (st1 r)"
    using Cons.prems damage_once_step by simp
  from Cons.IH[OF this] show ?case by (simp add: step)
qed

lemma fold_playerBullet_once:
  "\<forall>r. damage_once t (st0 r) (st r)
     \<Longrightarrow> \<forall>r. damage_once t (st0 r) (snd (fold (resolve_playerBullet t) cs (res, st)) r)"
proof (induction cs arbitrary: res st)
  case Nil
  then show ?case by simp
next
  case (Cons c cs)
  obtain res1 st1 where step: "resolve_playerBullet t c (res, st) = (res1, st1)"
    by (cases "resolve_playerBullet t c (res, st)")
  have "st1 = st(pb_player c := snd (damagePlayerFromCollision (st (pb_player c)) 25 t))"
    using snd_resolve_playerBullet[of t c res st] step by simp
  then have "\<forall>r. damage_once t (st0 r) (st1 r)"
    using Cons.prems damage_once_step by simp
  from Cons.IH[OF this] show ?case by (simp add: step)
qed

lemma resolveCollisions_once:
  "damage_once t (store r) (snd (resolveCollisions events store t) r)"
proof -
  obtain res1 st1 where s1:
    "fold (resolve_playerAsteroid t) (playerAsteroidCollisions events)
       (\<lparr>destroyedPlayers = [], destroyedAsteroids = [], destroyedBullets = [],
         newAsteroids = [], scoreUpdates = [], particleEffects = []\<rparr>, store) = (res1, st1)"
    by (cases "fold (resolve_playerAsteroid t) (playerAsteroidCollisions events)
       (\<lparr>destroyedPlayers = [], destroyedAsteroids = [], destroyedBullets = [],
         newAsteroids = [], scoreUpdates = [], particleEffects = []\<rparr>, store)")
  have "\<forall>r. damage_once t (store r)
          (snd (fold (resolve_playerAsteroid t) (playerAsteroidCollisions events)
       (\<lparr>destroyedPlayers = [], destroyedAsteroids = [], destroyedBullets = [],
         newAsteroids = [], scoreUpdates = [], particleEffects = []\<rparr>, store)) r)"
    by (rule fold_playerAsteroid_once) (simp add: damage_once_refl)
  then have "\<forall>r. damage_once t (store r) (st1 r)"
    by (simp add: s1)
  from fold_playerBullet_once[OF this] show ?thesis
    by (simp add: resolveCollisions_def Let_def s1)
qed

text \<open>
  C5. A player that is invulnerable at the current time or not alive is left unchanged by
  \<open>damagePlayerFromCollision\<close>: health, lives and aliveness keep their values. Otherwise
  the health drops by the damage; when that reaches zero or less the health is set to
  exactly \<open>0\<close>, the player is no longer alive and is reported destroyed. A health that
  was not negative never becomes negative, in one collision and over a whole pass of
  \<open>resolveCollisions\<close>. Over one pass, whatever the events and however many of them
  hold the same player object, the lives of a player drop by at most one, and a player
  that started the pass invulnerable or dead ends it unchanged.
\<close>

theorem damage_gate_single_life:
  "(currentTime < invulnerableUntil p \<or> \<not> isAlive p
      \<longrightarrow> damagePlayerFromCollision p d currentTime = (False, p))
   \<and> (\<not> currentTime < invulnerableUntil p \<and> isAlive p
      \<longrightarrow> fst (damagePlayerFromCollision p d currentTime) = (health p - d \<le> 0)
          \<and> health (snd (damagePlayerFromCollision p d currentTime))
               = (if health p - d \<le> 0 then 0 else health p - d)
          \<and> isAlive (snd (damagePlayerFromCollision p d currentTime)) = (\<not> health p - d \<le> 0))
   \<and> (0 \<le> health p \<longrightarrow> 0 \<le> health (snd (damagePlayerFromCollision p d currentTime)))
   \<and> (0 \<le> health (store r) \<longrightarrow> 0 \<le> health (snd (resolveCollisions events store currentTime) r))
   \<and> lives (store r) - 1 \<le> lives (snd (resolveCollisions events store currentTime) r)
   \<and> (currentTime < invulnerableUntil (store r) \<or> \<not> isAlive (store r)
      \<longrightarrow> snd (resolveCollisions events store currentTime) r = store r)"
proof -
  have gate: "currentTime < invulnerableUntil p \<or> \<not> isAlive p
      \<longrightarrow> damagePlayerFromCollision p d currentTime = (False, p)"
    by (simp add: damage_gate)
  have applied: "\<not> currentTime < invulnerableUntil p \<and> isAlive p
      \<longrightarrow> fst (damagePlayerFromCollision p d currentTime) = (health p - d \<le> 0)
          \<and> health (snd (damagePlayerFromCollision p d currentTime))
               = (if health p - d \<le> 0 then 0 else health p - d)
          \<and> isAlive (snd (damagePlayerFromCollision p d currentTime)) = (\<not> health p - d \<le> 0)"
    by (simp add: damage_applied)
  have single: "0 \<le> health p \<longrightarrow> 0 \<le> health (snd (damagePlayerFromCollision p d currentTime))"
    using damage_once_step[OF damage_once_refl, of currentTime p d]
    by (simp add: damage_once_def)
  have pass: "damage_once currentTime (store r) (snd (resolveCollisions events store currentTime) r)"
    by (rule resolveCollisions_once)
  have h: "0 \<le> health (store r) \<longrightarrow> 0 \<le> health (snd (resolveCollisions events store currentTime) r)"
    using pass by (simp add: damage_once_def)
  have l: "lives (store r) - 1 \<le> lives (snd (resolveCollisions events store currentTime) r)"
    using pass by (auto simp: damage_once_def)
  have g: "currentTime < invulnerableUntil (store r) \<or> \<not> isAlive (store r)
      \<longrightarrow> snd (resolveCollisions events store currentTime) r = store r"
    using pass by (simp add: damage_once_def)
  from gate applied single h l g show ?thesis by (intro conjI)
qed

lemma example_hits_result:
  "snd (resolveCollisions example_hits (\<lambda>_. example_player) 1000) 0
     = example_player\<lparr>health := 0, isAlive := False, lives := 2\<rparr>"
  by (simp add: resolveCollisions_def example_hits_def resolve_playerAsteroid_def
      resolve_playerBullet_def damagePlayerFromCollision_def example_player_def Let_def)

theorem damage_gate_single_life_witness:
  "lives ((\<lambda>_. example_player) (0::nat)) - 1
      \<le> lives (snd (resolveCollisions example_hits (\<lambda>_. example_player) 1000) 0)
   \<and> lives (snd (resolveCollisions example_hits (\<lambda>_. example_player) 1000) 0) = 2
   \<and> health (snd (resolveCollisions example_hits (\<lambda>_. example_player) 1000) 0) = 0
   \<and> \<not> isAlive (snd (resolveCollisions example_hits (\<lambda>_. example_player) 1000) 0)
   \<and> damagePlayerFromCollision (example_player\<lparr>invulnerableUntil := 2000\<rparr>) 100 1000
        = (False, example_player\<lparr>invulnerableUntil := 2000\<rparr>)"
proof -
  note t = damage_gate_single_life[of 1000 "example_player\<lparr>invulnerableUntil := 2000\<rparr>" 100
      "\<lambda>_. example_player" 0 example_hits]
  have a: "lives ((\<lambda>_. example_player) (0::nat)) - 1
      \<le> lives (snd (resolveCollisions example_hits (\<lambda>_. example_player) 1000) 0)"
    using t by blast
  have inv: "(1000::real) < invulnerableUntil (example_player\<lparr>invulnerableUntil := 2000\<rparr>)"
    by simp
  have e: "damagePlayerFromCollision (example_player\<lparr>invulnerableUntil := 2000\<rparr>) 100 1000
        = (False, example_player\<lparr>invulnerableUntil := 2000\<rparr>)"
    using t inv by blast
  have b: "lives (snd (resolveCollisions example_hits (\<lambda>_. example_player) 1000) 0) = 2"
    "health (snd (resolveCollisions example_hits (\<lambda>_. example_player) 1000) 0) = 0"
    "\<not> isAlive (snd (resolveCollisions example_hits (\<lambda>_. example_player) 1000) 0)"
    by (simp_all add: example_hits_result)
  show ?thesis by (rule conjI[OF a conjI[OF b(1) conjI[OF b(2) conjI[OF b(3) e]]]])
qed

lemma newAsteroids_playerAsteroid:
  "newAsteroids (fst (fold (resolve_playerAsteroid t) cs (res, st))) = newAsteroids res"
  by (induction cs arbitrary: res st)
     (simp_all add: resolve_playerAsteroid_def Let_def split: prod.splits)

lemma newAsteroids_bulletAsteroid:
  "newAsteroids (fold resolve_bulletAsteroid cs res) = newAsteroids res"
  by (induction cs arbitrary: res)
     (simp_all add: resolve_bulletAsteroid_def Let_def splitAsteroidFromBullet_def)

lemma newAsteroids_playerBullet:
  "newAsteroids (fst (fold (resolve_playerBullet t) cs (res, st))) = newAsteroids res"
  by (induction cs arbitrary: res st)
     (simp_all add: resolve_playerBullet_def Let_def split: prod.splits)

text \<open>
  C1. What \<open>resolveCollisions\<close> does with a bullet-asteroid collision. For every list
  of events the result holds no new asteroid at all, since \<open>splitAsteroidFromBullet\<close>
  returns the empty array. For the bullet of player \<open>p1\<close> that hits a LARGE asteroid at
  \<open>(100, 100)\<close>: the bullet and the asteroid are marked destroyed, \<open>p1\<close> is awarded 20
  points, one explosion at the asteroid's position and one hit spark at the bullet's
  position are queued, and no MEDIUM child is added.
\<close>

theorem resolveCollisions_no_children:
  "newAsteroids (fst (resolveCollisions events store currentTime)) = []
   \<and> fst (resolveCollisions example_events store currentTime)
       = \<lparr>destroyedPlayers = [], destroyedAsteroids = [''a1''], destroyedBullets = [''b1''],
          newAsteroids = [],
          scoreUpdates = [\<lparr>su_playerId = ''p1'', points = 20\<rparr>],
          particleEffects =
            [\<lparr>effect_position = \<lparr>vec_x = 100, vec_y = 100\<rparr>,
              effect_type = ''explosion'', effect_count = 6\<rparr>,
             \<lparr>effect_position = \<lparr>vec_x = 100, vec_y = 100\<rparr>,
              effect_type = ''bulletHit'', effect_count = 3\<rparr>]\<rparr>"
proof -
  have general: "newAsteroids (fst (resolveCollisions events store currentTime)) = []"
    by (simp add: resolveCollisions_def Let_def newAsteroids_playerBullet
        newAsteroids_bulletAsteroid newAsteroids_playerAsteroid split: prod.splits)
       (metis fst_conv newAsteroids_playerAsteroid ResolveCollisionResult.select_convs(4))
  have scenario: "fst (resolveCollisions example_events store currentTime)
       = \<lparr>destroyedPlayers = [], destroyedAsteroids = [''a1''], destroyedBullets = [''b1''],
          newAsteroids = [],
          scoreUpdates = [\<lparr>su_playerId = ''p1'', points = 20\<rparr>],
          particleEffects =
            [\<lparr>effect_position = \<lparr>vec_x = 100, vec_y = 100\<rparr>,
              effect_type = ''explosion'', effect_count = 6\<rparr>,
             \<lparr>effect_position = \<lparr>vec_x = 100, vec_y = 100\<rparr>,
              effect_type = ''bulletHit'', effect_count = 3\<rparr>]\<rparr>"
    by (simp add: resolveCollisions_def example_events_def resolve_bulletAsteroid_def Let_def
        splitAsteroidFromBullet_def getAsteroidScore_def example_asteroid_def example_bullet_def)
  from general scenario show ?thesis by (rule conjI)
qed

section \<open>Asteroid splitting\<close>

lemma Vec2_length_fromAngle: "Vec2_length (Vec2_fromAngle angle m) = \<bar>m\<bar>"
proof -
  have "cos angle * m * (cos angle * m) + sin angle * m * (sin angle * m)
        = (m * m) * (cos angle * cos angle + sin angle * sin angle)"
    by (simp only: algebra_simps)
  also have "\<dots> = m * m" by (simp only: sin_cos_squared_add3 mult_1_right)
  finally show ?thesis by (simp add: Vec2_length_def Vec2_fromAngle_def)
qed

lemma Vec2_distance_add: "Vec2_distance (Vec2_add p v) p = Vec2_length v"
  by (simp add: Vec2_distance_def Vec2_subtract_def Vec2_add_def Vec2_length_def)

lemma createAsteroid_fields:
  "asteroid_size (fst (createAsteroid H pos vel sz n)) = sz"
  "radius (fst (createAsteroid H pos vel sz n)) = RADIUS (ASTEROID_CONFIG sz)"
  "linearV (velocity (fst (createAsteroid H pos vel sz n))) = vel"
  "position (transform (fst (createAsteroid H pos vel sz n))) = pos"
  by (simp_all add: createAsteroid_def Let_def split: prod.splits)

lemma splitAsteroid_loop_children:
  assumes rnd: "\<forall>k. 0 \<le> random H k \<and> random H k < 1"
    and cfg: "MIN_SPEED (ASTEROID_CONFIG newSize) \<le> MAX_SPEED (ASTEROID_CONFIG newSize)"
             "0 \<le> MIN_SPEED (ASTEROID_CONFIG newSize)"
  shows "length (fst (splitAsteroid_loop H a newSize cnt idxs n)) = length idxs
    \<and> (\<forall>c \<in> set (fst (splitAsteroid_loop H a newSize cnt idxs n)).
          asteroid_size c = newSize
          \<and> radius c = RADIUS (ASTEROID_CONFIG newSize)
          \<and> MIN_SPEED (ASTEROID_CONFIG newSize) \<le> Vec2_length (linearV (velocity c))
          \<and> Vec2_length (linearV (velocity c)) \<le> MAX_SPEED (ASTEROID_CONFIG newSize)
          \<and> Vec2_distance (position (transform c)) (position (transform a))
               = \<bar>radius a + RADIUS (ASTEROID_CONFIG newSize) + 5\<bar>)"
proof (induction idxs arbitrary: n)
  case Nil
  show ?case by simp
next
  case (Cons i rest)
  let ?lo = "MIN_SPEED (ASTEROID_CONFIG newSize)"
  let ?hi = "MAX_SPEED (ASTEROID_CONFIG newSize)"
  define speed where "speed = random H (n + 1) * (?hi - ?lo) + ?lo"
  have r: "0 \<le> random H (n + 1)" "random H (n + 1) < 1" using rnd by simp_all
  have "0 \<le> random H (n + 1) * (?hi - ?lo)" using r(1) cfg(1) by simp
  then have lo: "?lo \<le> speed" by (simp add: speed_def)
  have "random H (n + 1) * (?hi - ?lo) \<le> 1 * (?hi - ?lo)"
    using r cfg(1) by (intro mult_right_mono) simp_all
  then have hi: "speed \<le> ?hi" by (simp add: speed_def)
  have sp: "\<bar>speed\<bar> = speed" using lo cfg(2) by simp
  obtain child n1 where child: "createAsteroid H
      (Vec2_add (position (transform a))
         (Vec2_fromAngle ((pi * 2 * real i) / real cnt + random H n * (1 / 2))
            (radius a + RADIUS (ASTEROID_CONFIG newSize) + 5)))
      (Vec2_fromAngle ((pi * 2 * real i) / real cnt + random H n * (1 / 2)) speed)
      newSize (n + 2) = (child, n1)"
    by (cases "createAsteroid H
      (Vec2_add (position (transform a))
         (Vec2_fromAngle ((pi * 2 * real i) / real cnt + random H n * (1 / 2))
            (radius a + RADIUS (ASTEROID_CONFIG newSize) + 5)))
      (Vec2_fromAngle ((pi * 2 * real i) / real cnt + random H n * (1 / 2)) speed)
      newSize (n + 2)")
  have unfold: "fst (splitAsteroid_loop H a newSize cnt (i # rest) n)
      = child # fst (splitAsteroid_loop H a newSize cnt rest n1)"
    using child by (simp add: Let_def speed_def split: prod.splits)
  have c: "asteroid_size child = newSize" "radius child = RADIUS (ASTEROID_CONFIG newSize)"
    "Vec2_length (linearV (velocity child)) = speed"
    "Vec2_distance (position (transform child)) (position (transform a))
       = \<bar>radius a + RADIUS (ASTEROID_CONFIG newSize) + 5\<bar>"
    unfolding arg_cong[OF child, of fst, simplified, symmetric]
    by (simp_all add: createAsteroid_fields Vec2_length_fromAngle Vec2_distance_add sp)
  show ?case
    unfolding unfold using Cons.IH[of n1] c lo hi by simp
qed

text \<open>
  C7. Provided every draw of \<open>Math.random\<close> lies in \<open>[0, 1)\<close>: \<open>splitAsteroid\<close> on a
  LARGE asteroid returns exactly two asteroids, each of size MEDIUM with the MEDIUM radius,
  a speed between the MEDIUM \<open>MIN_SPEED\<close> and \<open>MAX_SPEED\<close>, and a position whose
  distance from the parent's position is at least the parent's radius plus the child's;
  on a SMALL asteroid it returns the empty list.
\<close>

theorem splitAsteroid_children:
  assumes "\<forall>k. 0 \<le> random H k \<and> random H k < 1"
  shows "(asteroid_size a = LARGE \<longrightarrow>
            length (fst (splitAsteroid H a n)) = 2
            \<and> (\<forall>c \<in> set (fst (splitAsteroid H a n)).
                 asteroid_size c = MEDIUM
                 \<and> radius c = RADIUS (ASTEROID_CONFIG MEDIUM)
                 \<and> MIN_SPEED (ASTEROID_CONFIG MEDIUM) \<le> Vec2_length (linearV (velocity c))
                 \<and> Vec2_length (linearV (velocity c)) \<le> MAX_SPEED (ASTEROID_CONFIG MEDIUM)
                 \<and> radius a + radius c
                      \<le> Vec2_distance (position (transform c)) (position (transform a))))
       \<and> (asteroid_size a = SMALL \<longrightarrow> fst (splitAsteroid H a n) = [])"
proof -
  have small: "asteroid_size a = SMALL \<longrightarrow> fst (splitAsteroid H a n) = []"
    by (simp add: splitAsteroid_def)
  have large: "length (fst (splitAsteroid H a n)) = 2
            \<and> (\<forall>c \<in> set (fst (splitAsteroid H a n)).
                 asteroid_size c = MEDIUM
                 \<and> radius c = RADIUS (ASTEROID_CONFIG MEDIUM)
                 \<and> MIN_SPEED (ASTEROID_CONFIG MEDIUM) \<le> Vec2_length (linearV (velocity c))
                 \<and> Vec2_length (linearV (velocity c)) \<le> MAX_SPEED (ASTEROID_CONFIG MEDIUM)
                 \<and> radius a + radius c
                      \<le> Vec2_distance (position (transform c)) (position (transform a)))"
    if L: "asteroid_size a = LARGE"
  proof -
    have eq: "splitAsteroid H a n = splitAsteroid_loop H a MEDIUM 2 [0..<2] n"
      using L by (simp add: splitAsteroid_def)
    have "MIN_SPEED (ASTEROID_CONFIG MEDIUM) \<le> MAX_SPEED (ASTEROID_CONFIG MEDIUM)"
         "0 \<le> MIN_SPEED (ASTEROID_CONFIG MEDIUM)" by simp_all
    from splitAsteroid_loop_children[OF assms this, of a 2 "[0..<2]" n]
    have loop: "length (fst (splitAsteroid_loop H a MEDIUM 2 [0..<2] n)) = 2"
      "\<forall>c \<in> set (fst (splitAsteroid_loop H a MEDIUM 2 [0..<2] n)).
          asteroid_size c = MEDIUM
          \<and> radius c = RADIUS (ASTEROID_CONFIG MEDIUM)
          \<and> MIN_SPEED (ASTEROID_CONFIG MEDIUM) \<le> Vec2_length (linearV (velocity c))
          \<and> Vec2_length (linearV (velocity c)) \<le> MAX_SPEED (ASTEROID_CONFIG MEDIUM)
          \<and> Vec2_distance (position (transform c)) (position (transform a))
               = \<bar>radius a + RADIUS (ASTEROID_CONFIG MEDIUM) + 5\<bar>"
      by simp_all
    have "radius a + radius c \<le> Vec2_distance (position (transform c)) (position (transform a))"
      if "c \<in> set (fst (splitAsteroid_loop H a MEDIUM 2 [0..<2] n))" for c
    proof -
      from loop(2) that have "radius c = 20"
        "Vec2_distance (position (transform c)) (position (transform a)) = \<bar>radius a + 20 + 5\<bar>"
        by auto
      then show ?thesis by simp
    qed
    with loop show ?thesis unfolding eq by blast
  qed
  from large small show ?thesis by blast
qed

theorem splitAsteroid_children_witness:
  "length (fst (splitAsteroid example_host example_asteroid 0)) = 2
   \<and> fst (splitAsteroid example_host (example_asteroid\<lparr>asteroid_size := SMALL\<rparr>) 0) = []"
proof -
  have rnd: "\<forall>k. 0 \<le> random example_host k \<and> random example_host k < 1"
    by (simp add: example_host_def)
  have L: "asteroid_size example_asteroid = LARGE" by (simp add: example_asteroid_def)
  have S: "asteroid_size (example_asteroid\<lparr>asteroid_size := SMALL\<rparr>) = SMALL" by simp
  have a: "length (fst (splitAsteroid example_host example_asteroid 0)) = 2"
    using splitAsteroid_children[OF rnd, of example_asteroid 0] L by blast
  have b: "fst (splitAsteroid example_host (example_asteroid\<lparr>asteroid_size := SMALL\<rparr>) 0) = []"
    using splitAsteroid_children[OF rnd, of "example_asteroid\<lparr>asteroid_size := SMALL\<rparr>" 0] S by blast
  show ?thesis by (rule conjI[OF a b])
qed

section \<open>Shooting\<close>

lemma Vec2_normalize_fromAngle: "Vec2_normalize (Vec2_fromAngle angle 1) = Vec2_fromAngle angle 1"
proof -
  have "Vec2_length (Vec2_fromAngle angle 1) = 1" by (simp add: Vec2_length_fromAngle)
  then show ?thesis by (simp add: Vec2_normalize_def Vec2_divide_def Let_def)
qed

lemma shootBullet_result:
  "GameWorld_shootBullet H w key p t =
     w\<lparr>bullets := (bullets w)(fst (generateId H (randomCalls w)) \<mapsto>
           \<lparr>bullet_id = fst (generateId H (randomCalls w)),
            playerId = player_id p,
            bullet_transform =
              \<lparr>position = \<lparr>vec_x = vec_x (position (transform p)) + cos (rotation (transform p)) * 12,
                            vec_y = vec_y (position (transform p)) + sin (rotation (transform p)) * 12\<rparr>,
               rotation = Vec2_angle (Vec2_fromAngle (rotation (transform p)) 1)\<rparr>,
            bullet_velocity = \<lparr>vec_x = cos (rotation (transform p)) * BULLET_SPEED,
                               vec_y = sin (rotation (transform p)) * BULLET_SPEED\<rparr>,
            createdAt = t,
            lifetime = BULLET_LIFETIME\<rparr>),
       players := (players w)(key \<mapsto> p\<lparr>lastShotTime := t\<rparr>),
       randomCalls := randomCalls w + 2\<rparr>"
  by (simp add: GameWorld_shootBullet_def createBullet_def generateId_def Let_def
      Vec2_normalize_fromAngle)
     (simp add: Vec2_fromAngle_def Vec2_add_def Vec2_multiply_def)

text \<open>
  C6. For a living player and an input with \<open>shoot\<close> set, \<open>GameWorld.processInput\<close> at
  time \<open>t\<close> creates a bullet exactly when \<open>t - lastShotTime \<ge> FIRE_RATE\<close>. The bullet is
  stored under its fresh identifier, belongs to the player, starts at the player's position
  moved 12 units along the heading, and has velocity heading times \<open>BULLET_SPEED\<close>, in
  which the player's velocity does not occur; the player's \<open>lastShotTime\<close> becomes \<open>t\<close>.
  When the gate is closed the world is unchanged, so a second attempt less than
  \<open>FIRE_RATE\<close> after a successful shot changes nothing: the two attempts yield one bullet.
\<close>

theorem shoot_fire_rate_gate:
  assumes "players w key = Some p" "isAlive p" "shoot inp"
  shows "(FIRE_RATE \<le> t - lastShotTime p \<longrightarrow>
            (\<exists>b. bullets (GameWorld_processInput H w key inp t) = (bullets w)(bullet_id b \<mapsto> b)
                 \<and> bullet_id b = fst (generateId H (randomCalls w))
                 \<and> playerId b = player_id p
                 \<and> position (bullet_transform b)
                      = \<lparr>vec_x = vec_x (position (transform p)) + cos (rotation (transform p)) * 12,
                         vec_y = vec_y (position (transform p)) + sin (rotation (transform p)) * 12\<rparr>
                 \<and> bullet_velocity b
                      = \<lparr>vec_x = cos (rotation (transform p)) * BULLET_SPEED,
                         vec_y = sin (rotation (transform p)) * BULLET_SPEED\<rparr>
                 \<and> createdAt b = t)
            \<and> players (GameWorld_processInput H w key inp t)
                 = (players w)(key \<mapsto> p\<lparr>lastShotTime := t\<rparr>))
       \<and> (\<not> FIRE_RATE \<le> t - lastShotTime p \<longrightarrow> GameWorld_processInput H w key inp t = w)
       \<and> (FIRE_RATE \<le> t - lastShotTime p \<and> t2 - t < FIRE_RATE \<longrightarrow>
            GameWorld_processInput H (GameWorld_processInput H w key inp t) key inp t2
              = GameWorld_processInput H w key inp t)"
proof -
  have no: "GameWorld_processInput H w key inp t = w" if "\<not> FIRE_RATE \<le> t - lastShotTime p"
    using assms that by (simp add: GameWorld_processInput_def canPlayerShoot_def)
  have yes: "GameWorld_processInput H w key inp t = GameWorld_shootBullet H w key p t"
    if "FIRE_RATE \<le> t - lastShotTime p"
    using assms that by (simp add: GameWorld_processInput_def canPlayerShoot_def)
  have first: "(\<exists>b. bullets (GameWorld_processInput H w key inp t) = (bullets w)(bullet_id b \<mapsto> b)
                 \<and> bullet_id b = fst (generateId H (randomCalls w))
                 \<and> playerId b = player_id p
                 \<and> position (bullet_transform b)
                      = \<lparr>vec_x = vec_x (position (transform p)) + cos (rotation (transform p)) * 12,
                         vec_y = vec_y (position (transform p)) + sin (rotation (transform p)) * 12\<rparr>
                 \<and> bullet_velocity b
                      = \<lparr>vec_x = cos (rotation (transform p)) * BULLET_SPEED,
                         vec_y = sin (rotation (transform p)) * BULLET_SPEED\<rparr>
                 \<and> createdAt b = t)
            \<and> players (GameWorld_processInput H w key inp t)
                 = (players w)(key \<mapsto> p\<lparr>lastShotTime := t\<rparr>)"
    if ok: "FIRE_RATE \<le> t - lastShotTime p"
    unfolding yes[OF ok] shootBullet_result
    by (intro conjI exI[of _ "\<lparr>bullet_id = fst (generateId H (randomCalls w)),
            playerId = player_id p,
            bullet_transform =
              \<lparr>position = \<lparr>vec_x = vec_x (position (transform p)) + cos (rotation (transform p)) * 12,
                            vec_y = vec_y (position (transform p)) + sin (rotation (transform p)) * 12\<rparr>,
               rotation = Vec2_angle (Vec2_fromAngle (rotation (transform p)) 1)\<rparr>,
            bullet_velocity = \<lparr>vec_x = cos (rotation (transform p)) * BULLET_SPEED,
                               vec_y = sin (rotation (transform p)) * BULLET_SPEED\<rparr>,
            createdAt = t,
            lifetime = BULLET_LIFETIME\<rparr>"]) simp_all
  have second: "GameWorld_processInput H (GameWorld_processInput H w key inp t) key inp t2
              = GameWorld_processInput H w key inp t"
    if ok: "FIRE_RATE \<le> t - lastShotTime p" and soon: "t2 - t < FIRE_RATE"
    unfolding yes[OF ok] shootBullet_result
    using assms soon by (simp add: GameWorld_processInput_def canPlayerShoot_def)
  from no first second show ?thesis by blast
qed

theorem shoot_fire_rate_gate_witness:
  "bullets (GameWorld_processInput example_host
      (GameWorld_processInput example_host example_world ''p1'' example_shoot 1000)
      ''p1'' example_shoot 1050)
   = bullets (GameWorld_processInput example_host example_world ''p1'' example_shoot 1000)
   \<and> GameWorld_processInput example_host example_world ''p1'' example_shoot 100 = example_world
   \<and> players (GameWorld_processInput example_host example_world ''p1'' example_shoot 1000)
       = [''p1'' \<mapsto> example_player\<lparr>lastShotTime := 1000\<rparr>]"
proof -
  have h: "players example_world ''p1'' = Some example_player" "isAlive example_player"
    "shoot example_shoot"
    by (simp_all add: example_world_def example_player_def example_shoot_def)
  have ok: "FIRE_RATE \<le> 1000 - lastShotTime example_player"
    "(1050::real) - 1000 < FIRE_RATE"
    "\<not> FIRE_RATE \<le> 100 - lastShotTime example_player"
    by (simp_all add: FIRE_RATE_def example_player_def)
  note t = shoot_fire_rate_gate[OF h, of 1000 example_host 1050]
  have a: "GameWorld_processInput example_host
      (GameWorld_processInput example_host example_world ''p1'' example_shoot 1000)
      ''p1'' example_shoot 1050
     = GameWorld_processInput example_host example_world ''p1'' example_shoot 1000"
    using t ok by blast
  have b: "GameWorld_processInput example_host example_world ''p1'' example_shoot 100 = example_world"
    using shoot_fire_rate_gate[OF h, of 100 example_host 0] ok by blast
  have c: "players (GameWorld_processInput example_host example_world ''p1'' example_shoot 1000)
       = [''p1'' \<mapsto> example_player\<lparr>lastShotTime := 1000\<rparr>]"
    using t ok by (simp add: example_world_def)
  show ?thesis by (rule conjI[OF arg_cong[OF a, of bullets] conjI[OF b c]])
qed

section \<open>Input processing and reconciliation\<close>

lemma updatePlayerMovement_isAlive:
  "isAlive (updatePlayerMovement H p i dt) = isAlive p"
  by (simp add: updatePlayerMovement_def Let_def)

lemma apply_record_isAlive: "isAlive (apply_record H dt e p) = isAlive p"
  by (simp add: apply_record_def updatePlayerMovement_isAlive)

lemma createParticle_THRUST:
  "createParticle H pos vel THRUST None n =
     Inr (\<lparr>particle_id = fst (generateId H n),
           particle_transform = \<lparr>position = pos, rotation = Vec2_angle vel\<rparr>,
           particle_velocity = vel, particle_lifetime = 200, maxLifetime = 200,
           particle_type = THRUST\<rparr>, n + 2)"
  by (simp add: createParticle_def generateId_def Let_def)

lemma GameWorld_updatePlayerMovement_alive:
  assumes "players w key = Some p" "isAlive p"
  shows "\<exists>w'. GameWorld_updatePlayerMovement H w key inp dt = Inr w'
           \<and> players w' = (players w)(key \<mapsto> updatePlayerMovement H p inp dt)
           \<and> bullets w' = bullets w"
  using assms
  by (simp add: GameWorld_updatePlayerMovement_def Let_def randomFloat_def
      createParticle_THRUST)

lemma GameWorld_processInput_shot:
  assumes "players w key = Some p" "isAlive p"
  shows "players (GameWorld_processInput H w key inp t)
           = (players w)(key \<mapsto> (if shoot inp \<and> canPlayerShoot p t
                                  then p\<lparr>lastShotTime := t\<rparr> else p))
         \<and> (\<forall>ident b. bullets (GameWorld_processInput H w key inp t) ident = Some b \<longrightarrow>
                bullets w ident = Some b \<or> shoot inp \<and> createdAt b = t)"
proof (cases "shoot inp \<and> canPlayerShoot p t")
  case True
  then have "GameWorld_processInput H w key inp t = GameWorld_shootBullet H w key p t"
    using assms by (simp add: GameWorld_processInput_def)
  then show ?thesis using True by (simp add: shootBullet_result)
next
  case False
  then have "GameWorld_processInput H w key inp t = w"
    using assms by (auto simp: GameWorld_processInput_def)
  moreover have "(players w)(key \<mapsto> p) = players w" using assms by (simp add: map_upd_triv)
  ultimately show ?thesis using False by auto
qed

lemma record_step:
  assumes "players w key = Some p" "isAlive p"
  shows "\<exists>w2. GameWorld_updatePlayerMovement H
                 (GameWorld_processInput H w key (entry_input e) (timestamp e))
                 key (entry_input e) dt = Inr w2
           \<and> players w2 = (players w)(key \<mapsto> apply_record H dt e p)
           \<and> (\<forall>ident b. bullets w2 ident = Some b \<longrightarrow>
                  bullets w ident = Some b
                  \<or> shoot (entry_input e) \<and> createdAt b = timestamp e)"
proof -
  let ?w1 = "GameWorld_processInput H w key (entry_input e) (timestamp e)"
  let ?p1 = "if shoot (entry_input e) \<and> canPlayerShoot p (timestamp e)
             then p\<lparr>lastShotTime := timestamp e\<rparr> else p"
  note s = GameWorld_processInput_shot[OF assms, of H "entry_input e" "timestamp e"]
  have l1: "players ?w1 key = Some ?p1" using s by simp
  have a1: "isAlive ?p1" using assms(2) by simp
  obtain w2 where
    w2: "GameWorld_updatePlayerMovement H ?w1 key (entry_input e) dt = Inr w2"
        "players w2 = (players ?w1)(key \<mapsto> updatePlayerMovement H ?p1 (entry_input e) dt)"
        "bullets w2 = bullets ?w1"
    using GameWorld_updatePlayerMovement_alive[OF l1 a1] by blast
  have pl: "players w2 = (players w)(key \<mapsto> apply_record H dt e p)"
    using w2(2) s unfolding apply_record_def by simp
  have bl: "\<forall>ident b. bullets w2 ident = Some b \<longrightarrow>
                  bullets w ident = Some b
                  \<or> shoot (entry_input e) \<and> createdAt b = timestamp e"
    unfolding w2(3) using s by blast
  from w2(1) pl bl show ?thesis by blast
qed

lemma processClientInput_loop_result:
  assumes "players w key = Some p" "isAlive p"
  shows "\<exists>w'. processClientInput_loop H key dt entries w
              = Inr (w', map (\<lambda>e. e\<lparr>processed := True\<rparr>) entries)
           \<and> players w' = (players w)(key \<mapsto> apply_records H dt entries p)
           \<and> (\<forall>ident b. bullets w' ident = Some b \<longrightarrow>
                  bullets w ident = Some b
                  \<or> (\<exists>e \<in> set entries. \<not> processed e \<and> shoot (entry_input e)
                        \<and> createdAt b = timestamp e))"
  using assms
proof (induction entries arbitrary: w p)
  case Nil
  have "(players w)(key \<mapsto> p) = players w" using Nil by (simp add: map_upd_triv)
  then show ?case by (simp add: apply_records_def)
next
  case (Cons e es)
  show ?case
  proof (cases "processed e")
    case True
    from Cons.IH[OF Cons.prems] obtain w' where
      r: "processClientInput_loop H key dt es w = Inr (w', map (\<lambda>e. e\<lparr>processed := True\<rparr>) es)"
         "players w' = (players w)(key \<mapsto> apply_records H dt es p)"
         "\<forall>ident b. bullets w' ident = Some b \<longrightarrow>
                  bullets w ident = Some b
                  \<or> (\<exists>e \<in> set es. \<not> processed e \<and> shoot (entry_input e)
                        \<and> createdAt b = timestamp e)"
      by blast
    have e: "e\<lparr>processed := True\<rparr> = e" using True by simp
    have run: "processClientInput_loop H key dt (e # es) w
        = Inr (w', map (\<lambda>e. e\<lparr>processed := True\<rparr>) (e # es))"
      using r(1) True by (simp add: e)
    have pl: "players w' = (players w)(key \<mapsto> apply_records H dt (e # es) p)"
      using r(2) True by (simp add: apply_records_def)
    have bl: "\<forall>ident b. bullets w' ident = Some b \<longrightarrow>
                  bullets w ident = Some b
                  \<or> (\<exists>e \<in> set (e # es). \<not> processed e \<and> shoot (entry_input e)
                        \<and> createdAt b = timestamp e)"
      using r(3) by auto
    from run pl bl show ?thesis by blast
  next
    case False
    obtain w2 where
      w2: "GameWorld_updatePlayerMovement H
             (GameWorld_processInput H w key (entry_input e) (timestamp e))
             key (entry_input e) dt = Inr w2"
          "players w2 = (players w)(key \<mapsto> apply_record H dt e p)"
          "\<forall>ident b. bullets w2 ident = Some b \<longrightarrow>
                  bullets w ident = Some b
                  \<or> shoot (entry_input e) \<and> createdAt b = timestamp e"
      using record_step[OF Cons.prems, of H e dt] by blast
    let ?p2 = "apply_record H dt e p"
    have l2: "players w2 key = Some ?p2" using w2(2) by simp
    have a2: "isAlive ?p2" using Cons.prems(2) by (simp add: apply_record_isAlive)
    from Cons.IH[OF l2 a2] obtain w' where
      r: "processClientInput_loop H key dt es w2 = Inr (w', map (\<lambda>e. e\<lparr>processed := True\<rparr>) es)"
         "players w' = (players w2)(key \<mapsto> apply_records H dt es ?p2)"
         "\<forall>ident b. bullets w' ident = Some b \<longrightarrow>
                  bullets w2 ident = Some b
                  \<or> (\<exists>e \<in> set es. \<not> processed e \<and> shoot (entry_input e)
                        \<and> createdAt b = timestamp e)"
      by blast
    have run: "processClientInput_loop H key dt (e # es) w
        = Inr (w', map (\<lambda>e. e\<lparr>processed := True\<rparr>) (e # es))"
      using r(1) w2(1) False by (simp add: Let_def)
    have pl: "players w' = (players w)(key \<mapsto> apply_records H dt (e # es) p)"
      using r(2) w2(2) False by (simp add: apply_records_def)
    have bl: "bullets w ident = Some b
                  \<or> (\<exists>e \<in> set (e # es). \<not> processed e \<and> shoot (entry_input e)
                        \<and> createdAt b = timestamp e)"
      if b: "bullets w' ident = Some b" for ident b
    proof -
      from r(3) b have "bullets w2 ident = Some b
          \<or> (\<exists>e \<in> set es. \<not> processed e \<and> shoot (entry_input e) \<and> createdAt b = timestamp e)"
        by blast
      then show ?thesis
      proof
        assume "bullets w2 ident = Some b"
        with w2(3) have "bullets w ident = Some b
            \<or> shoot (entry_input e) \<and> createdAt b = timestamp e"
          by blast
        then show ?thesis using False by auto
      next
        assume "\<exists>e \<in> set es. \<not> processed e \<and> shoot (entry_input e) \<and> createdAt b = timestamp e"
        then show ?thesis by auto
      qed
    qed
    from run pl bl show ?thesis by blast
  qed
qed

lemma clock_reads_Cons: "clock_reads w (c # cs) = clock_reads w [c] + clock_reads w cs"
  by (simp add: clock_reads_def)

lemma clock_reads_cong:
  "(\<And>c. c \<in> set cs \<Longrightarrow> players w1 (client_id c) = players w (client_id c))
     \<Longrightarrow> clock_reads w1 cs = clock_reads w cs"
  unfolding clock_reads_def by (induction cs) simp_all

lemma processClientInput_outcome:
  "\<exists>w' c'. processClientInput H w c dt k = Inr (w', c', k + clock_reads w [c])
     \<and> (\<forall>key. key \<noteq> client_id c \<longrightarrow> players w' key = players w key)
     \<and> input_phase_outcome H dt k (players w (client_id c)) c (players w' (client_id c)) c'
     \<and> (\<forall>ident b. bullets w' ident = Some b \<longrightarrow>
            bullets w ident = Some b
            \<or> (\<exists>e \<in> set (inputBuffer c). \<not> processed e \<and> shoot (entry_input e)
                  \<and> createdAt b = timestamp e))"
proof (cases "players w (client_id c)")
  case None
  then show ?thesis
    by (simp add: processClientInput_def input_phase_outcome_def clock_reads_def)
next
  case (Some p)
  show ?thesis
  proof (cases "isAlive p")
    case False
    then show ?thesis using Some
      by (simp add: processClientInput_def input_phase_outcome_def clock_reads_def)
  next
    case True
    obtain w' where
      r: "processClientInput_loop H (client_id c) dt (inputBuffer c) w
            = Inr (w', map (\<lambda>e. e\<lparr>processed := True\<rparr>) (inputBuffer c))"
         "players w' = (players w)(client_id c \<mapsto> apply_records H dt (inputBuffer c) p)"
         "\<forall>ident b. bullets w' ident = Some b \<longrightarrow>
            bullets w ident = Some b
            \<or> (\<exists>e \<in> set (inputBuffer c). \<not> processed e \<and> shoot (entry_input e)
                  \<and> createdAt b = timestamp e)"
      using processClientInput_loop_result[OF Some True] by blast
    let ?c' = "c\<lparr>inputBuffer := filter (\<lambda>e. timestamp e > f64 (dateNow H k - 1000))
                                   (map (\<lambda>e. e\<lparr>processed := True\<rparr>) (inputBuffer c))\<rparr>"
    have run: "processClientInput H w c dt k = Inr (w', ?c', k + clock_reads w [c])"
      using Some True r(1) by (simp add: processClientInput_def Let_def clock_reads_def)
    have frame: "\<forall>key. key \<noteq> client_id c \<longrightarrow> players w' key = players w key"
      using r(2) by simp
    have out: "input_phase_outcome H dt k (players w (client_id c)) c (players w' (client_id c)) ?c'"
      unfolding input_phase_outcome_def Some using True r(2) by simp
    from run frame out r(3) show ?thesis by blast
  qed
qed

lemma tick_clients_outcome:
  assumes "distinct (map client_id cs)"
  shows "\<exists>w' cs'. tick_clients H dt cs w k = Inr (w', cs', k + clock_reads w cs)
     \<and> length cs' = length cs
     \<and> (\<forall>key. key \<notin> client_id ` set cs \<longrightarrow> players w' key = players w key)
     \<and> (\<forall>i < length cs.
           input_phase_outcome H dt (k + clock_reads w (take i cs))
             (players w (client_id (cs ! i))) (cs ! i)
             (players w' (client_id (cs ! i))) (cs' ! i))
     \<and> (\<forall>ident b. bullets w' ident = Some b \<longrightarrow>
            bullets w ident = Some b
            \<or> (\<exists>c \<in> set cs. \<exists>e \<in> set (inputBuffer c).
                  \<not> processed e \<and> shoot (entry_input e) \<and> createdAt b = timestamp e))"
  using assms
proof (induction cs arbitrary: w k)
  case Nil
  show ?case by (simp add: clock_reads_def)
next
  case (Cons c cs)
  obtain w1 c1 where
    s1: "processClientInput H w c dt k = Inr (w1, c1, k + clock_reads w [c])"
        "\<forall>key. key \<noteq> client_id c \<longrightarrow> players w1 key = players w key"
        "input_phase_outcome H dt k (players w (client_id c)) c (players w1 (client_id c)) c1"
        "\<forall>ident b. bullets w1 ident = Some b \<longrightarrow>
            bullets w ident = Some b
            \<or> (\<exists>e \<in> set (inputBuffer c). \<not> processed e \<and> shoot (entry_input e)
                  \<and> createdAt b = timestamp e)"
    using processClientInput_outcome[of H w c dt k] by blast
  have d: "distinct (map client_id cs)" "client_id c \<notin> client_id ` set cs"
    using Cons.prems by simp_all
  define k1 where "k1 = k + clock_reads w [c]"
  obtain w' cs' where
    s2: "tick_clients H dt cs w1 k1 = Inr (w', cs', k1 + clock_reads w1 cs)"
        "length cs' = length cs"
        "\<forall>key. key \<notin> client_id ` set cs \<longrightarrow> players w' key = players w1 key"
        "\<forall>i < length cs.
           input_phase_outcome H dt (k1 + clock_reads w1 (take i cs))
             (players w1 (client_id (cs ! i))) (cs ! i)
             (players w' (client_id (cs ! i))) (cs' ! i)"
        "\<forall>ident b. bullets w' ident = Some b \<longrightarrow>
            bullets w1 ident = Some b
            \<or> (\<exists>c \<in> set cs. \<exists>e \<in> set (inputBuffer c).
                  \<not> processed e \<and> shoot (entry_input e) \<and> createdAt b = timestamp e)"
    using Cons.IH[OF d(1), of w1 k1] by blast
  have same: "players w1 (client_id x) = players w (client_id x)" if "x \<in> set cs" for x
  proof -
    have "client_id x \<in> client_id ` set cs" using that by simp
    then have "client_id x \<noteq> client_id c" using d(2) by auto
    then show ?thesis using s1(2) by simp
  qed
  have reads: "clock_reads w1 xs = clock_reads w xs" if "set xs \<subseteq> set cs" for xs
    using that same by (intro clock_reads_cong) auto
  have total: "k1 + clock_reads w1 cs = k + clock_reads w (c # cs)"
    unfolding k1_def reads[OF subset_refl] clock_reads_Cons[of w c cs] by simp
  have run: "tick_clients H dt (c # cs) w k = Inr (w', c1 # cs', k + clock_reads w (c # cs))"
    using s1(1) s2(1) unfolding k1_def[symmetric] total by simp
  have frame: "\<forall>key. key \<notin> client_id ` set (c # cs) \<longrightarrow> players w' key = players w key"
    using s1(2) s2(3) by simp
  have each: "input_phase_outcome H dt (k + clock_reads w (take i (c # cs)))
                 (players w (client_id ((c # cs) ! i))) ((c # cs) ! i)
                 (players w' (client_id ((c # cs) ! i))) ((c1 # cs') ! i)"
    if "i < length (c # cs)" for i
  proof (cases i)
    case 0
    have "players w' (client_id c) = players w1 (client_id c)" using s2(3) d(2) by simp
    then show ?thesis using s1(3) 0 by (simp add: clock_reads_def)
  next
    case (Suc j)
    then have j: "j < length cs" using that by simp
    then have m: "cs ! j \<in> set cs" by simp
    have t: "set (take j cs) \<subseteq> set cs" by (rule set_take_subset)
    have idx: "k + clock_reads w (take i (c # cs)) = k1 + clock_reads w1 (take j cs)"
      unfolding Suc k1_def reads[OF t] by (simp add: clock_reads_Cons[of w c "take j cs"])
    have "input_phase_outcome H dt (k1 + clock_reads w1 (take j cs))
            (players w1 (client_id (cs ! j))) (cs ! j)
            (players w' (client_id (cs ! j))) (cs' ! j)"
      using s2(4) j by blast
    then show ?thesis unfolding idx same[OF m] using Suc by simp
  qed
  have bl: "bullets w ident = Some b
            \<or> (\<exists>x \<in> set (c # cs). \<exists>e \<in> set (inputBuffer x).
                  \<not> processed e \<and> shoot (entry_input e) \<and> createdAt b = timestamp e)"
    if b: "bullets w' ident = Some b" for ident b
  proof -
    from s2(5) b have "bullets w1 ident = Some b
        \<or> (\<exists>x \<in> set cs. \<exists>e \<in> set (inputBuffer x).
              \<not> processed e \<and> shoot (entry_input e) \<and> createdAt b = timestamp e)"
      by blast
    then show ?thesis
    proof
      assume "bullets w1 ident = Some b"
      with s1(4) have "bullets w ident = Some b
          \<or> (\<exists>e \<in> set (inputBuffer c). \<not> processed e \<and> shoot (entry_input e)
                \<and> createdAt b = timestamp e)"
        by blast
      then show ?thesis by auto
    next
      assume "\<exists>x \<in> set cs. \<exists>e \<in> set (inputBuffer x).
              \<not> processed e \<and> shoot (entry_input e) \<and> createdAt b = timestamp e"
      then show ?thesis by auto
    qed
  qed
  have len: "length (c1 # cs') = length (c # cs)" using s2(2) by simp
  from run len frame each bl show ?case by blast
qed

lemma tick_processInputs_outcome:
  assumes "distinct (map client_id (room_clients room))"
  shows "\<exists>room'. tick_processInputs H room = Inr room'
     \<and> lastTick room' = dateNow H (dateNowCalls room)
     \<and> length (room_clients room') = length (room_clients room)
     \<and> (\<forall>i < length (room_clients room). \<forall>p.
           players (gameWorld room) (client_id (room_clients room ! i)) = Some p \<and> isAlive p \<longrightarrow>
             players (gameWorld room') (client_id (room_clients room ! i))
               = Some (apply_records H
                         (f64 (f64 (dateNow H (dateNowCalls room) - lastTick room) / 1000))
                         (inputBuffer (room_clients room ! i)) p)
             \<and> inputBuffer (room_clients room' ! i)
                 = filter (\<lambda>e. timestamp e
                              > f64 (dateNow H (dateNowCalls room + 1
                                       + clock_reads (gameWorld room) (take i (room_clients room)))
                                     - 1000))
                     (map (\<lambda>e. e\<lparr>processed := True\<rparr>) (inputBuffer (room_clients room ! i)))
             \<and> (\<forall>e \<in> set (inputBuffer (room_clients room' ! i)). processed e))
     \<and> (\<forall>i < length (room_clients room). \<forall>p.
           players (gameWorld room) (client_id (room_clients room ! i)) = Some p \<and> \<not> isAlive p \<longrightarrow>
             room_clients room' ! i = room_clients room ! i
             \<and> players (gameWorld room') (client_id (room_clients room ! i)) = Some p)
     \<and> (\<forall>ident b. bullets (gameWorld room') ident = Some b \<longrightarrow>
           bullets (gameWorld room) ident = Some b
           \<or> (\<exists>c \<in> set (room_clients room). \<exists>e \<in> set (inputBuffer c).
                 \<not> processed e \<and> shoot (entry_input e) \<and> createdAt b = timestamp e))"
proof -
  define now where "now = dateNow H (dateNowCalls room)"
  define dt where "dt = f64 (f64 (now - lastTick room) / 1000)"
  define k where "k = dateNowCalls room + 1"
  obtain w' cs' where
    r: "tick_clients H dt (room_clients room) (gameWorld room) k
          = Inr (w', cs', k + clock_reads (gameWorld room) (room_clients room))"
       "length cs' = length (room_clients room)"
       "\<forall>i < length (room_clients room).
           input_phase_outcome H dt (k + clock_reads (gameWorld room) (take i (room_clients room)))
             (players (gameWorld room) (client_id (room_clients room ! i)))
             (room_clients room ! i) (players w' (client_id (room_clients room ! i))) (cs' ! i)"
       "\<forall>ident b. bullets w' ident = Some b \<longrightarrow>
            bullets (gameWorld room) ident = Some b
            \<or> (\<exists>c \<in> set (room_clients room). \<exists>e \<in> set (inputBuffer c).
                  \<not> processed e \<and> shoot (entry_input e) \<and> createdAt b = timestamp e)"
    using tick_clients_outcome[OF assms, of H dt "gameWorld room" k] by blast
  define room' where "room' = room\<lparr>lastTick := now, room_clients := cs', gameWorld := w',
                     dateNowCalls := k + clock_reads (gameWorld room) (room_clients room)\<rparr>"
  have sel: "gameWorld room' = w'" "room_clients room' = cs'" "lastTick room' = now"
    by (simp_all add: room'_def)
  have run: "tick_processInputs H room = Inr room'"
    unfolding tick_processInputs_def Let_def now_def[symmetric] dt_def[symmetric]
      k_def[symmetric] r(1) room'_def
    by simp
  have alive: "players (gameWorld room') (client_id (room_clients room ! i))
               = Some (apply_records H
                         (f64 (f64 (dateNow H (dateNowCalls room) - lastTick room) / 1000))
                         (inputBuffer (room_clients room ! i)) p)
             \<and> inputBuffer (room_clients room' ! i)
                 = filter (\<lambda>e. timestamp e
                              > f64 (dateNow H (dateNowCalls room + 1
                                       + clock_reads (gameWorld room) (take i (room_clients room)))
                                     - 1000))
                     (map (\<lambda>e. e\<lparr>processed := True\<rparr>) (inputBuffer (room_clients room ! i)))
             \<and> (\<forall>e \<in> set (inputBuffer (room_clients room' ! i)). processed e)"
    if i: "i < length (room_clients room)"
      and p: "players (gameWorld room) (client_id (room_clients room ! i)) = Some p \<and> isAlive p"
    for i p
  proof -
    have o: "input_phase_outcome H dt (k + clock_reads (gameWorld room) (take i (room_clients room)))
            (Some p) (room_clients room ! i)
            (players w' (client_id (room_clients room ! i))) (cs' ! i)"
      using r(3)[rule_format, OF i] p by simp
    have a: "players w' (client_id (room_clients room ! i))
               = Some (apply_records H dt (inputBuffer (room_clients room ! i)) p)"
      using o p by (simp add: input_phase_outcome_def)
    have b: "inputBuffer (cs' ! i)
                 = filter (\<lambda>e. timestamp e
                              > f64 (dateNow H (k + clock_reads (gameWorld room)
                                                     (take i (room_clients room))) - 1000))
                     (map (\<lambda>e. e\<lparr>processed := True\<rparr>) (inputBuffer (room_clients room ! i)))"
      using o p by (simp add: input_phase_outcome_def)
    have c: "\<forall>e \<in> set (inputBuffer (cs' ! i)). processed e"
      unfolding b by auto
    show ?thesis
      unfolding sel using a b c unfolding dt_def now_def k_def by blast
  qed
  have dead: "room_clients room' ! i = room_clients room ! i
             \<and> players (gameWorld room') (client_id (room_clients room ! i)) = Some p"
    if i: "i < length (room_clients room)"
      and p: "players (gameWorld room) (client_id (room_clients room ! i)) = Some p \<and> \<not> isAlive p"
    for i p
  proof -
    have "input_phase_outcome H dt (k + clock_reads (gameWorld room) (take i (room_clients room)))
            (Some p) (room_clients room ! i)
            (players w' (client_id (room_clients room ! i))) (cs' ! i)"
      using r(3)[rule_format, OF i] p by simp
    then show ?thesis unfolding sel using p by (simp add: input_phase_outcome_def)
  qed
  have lt: "lastTick room' = dateNow H (dateNowCalls room)" unfolding sel now_def ..
  have len: "length (room_clients room') = length (room_clients room)" unfolding sel by (rule r(2))
  have bl: "\<forall>ident b. bullets (gameWorld room') ident = Some b \<longrightarrow>
           bullets (gameWorld room) ident = Some b
           \<or> (\<exists>c \<in> set (room_clients room). \<exists>e \<in> set (inputBuffer c).
                 \<not> processed e \<and> shoot (entry_input e) \<and> createdAt b = timestamp e)"
    unfolding sel by (rule r(4))
  show ?thesis
  proof (intro exI[of _ room'] conjI)
    show "tick_processInputs H room = Inr room'" by (rule run)
    show "lastTick room' = dateNow H (dateNowCalls room)" by (rule lt)
    show "length (room_clients room') = length (room_clients room)" by (rule len)
    show "\<forall>i < length (room_clients room). \<forall>p.
           players (gameWorld room) (client_id (room_clients room ! i)) = Some p \<and> isAlive p \<longrightarrow>
             players (gameWorld room') (client_id (room_clients room ! i))
               = Some (apply_records H
                         (f64 (f64 (dateNow H (dateNowCalls room) - lastTick room) / 1000))
                         (inputBuffer (room_clients room ! i)) p)
             \<and> inputBuffer (room_clients room' ! i)
                 = filter (\<lambda>e. timestamp e
                              > f64 (dateNow H (dateNowCalls room + 1
                                       + clock_reads (gameWorld room) (take i (room_clients room)))
                                     - 1000))
                     (map (\<lambda>e. e\<lparr>processed := True\<rparr>) (inputBuffer (room_clients room ! i)))
             \<and> (\<forall>e \<in> set (inputBuffer (room_clients room' ! i)). processed e)"
      by (intro allI impI) (rule alive)
    show "\<forall>i < length (room_clients room). \<forall>p.
           players (gameWorld room) (client_id (room_clients room ! i)) = Some p \<and> \<not> isAlive p \<longrightarrow>
             room_clients room' ! i = room_clients room ! i
             \<and> players (gameWorld room') (client_id (room_clients room ! i)) = Some p"
      by (intro allI impI) (rule dead)
    show "\<forall>ident b. bullets (gameWorld room') ident = Some b \<longrightarrow>
           bullets (gameWorld room) ident = Some b
           \<or> (\<exists>c \<in> set (room_clients room). \<exists>e \<in> set (inputBuffer c).
                 \<not> processed e \<and> shoot (entry_input e) \<and> createdAt b = timestamp e)"
      by (rule bl)
  qed
qed

text \<open>
  C3. In the input pass of a room tick over clients with distinct ids, for every client
  whose player is alive, the player ends as \<open>apply_records\<close> leaves it: the unprocessed
  records of the buffer are applied in buffer order, each one with the shot gate evaluated
  at the record's own timestamp and with the movement step of the whole tick, the double
  \<open>(now - lastTick) / 1000\<close>, which is the same for every record. The buffer becomes the
  records marked processed that are newer than one second before the client's reading of
  the clock, so every record left in it is marked. For a client whose player is not
  alive, the client record and the player are left as they were. Every bullet in the
  world after the pass was there before, or was created at the timestamp of an unprocessed
  record with \<open>shoot\<close> set.
\<close>

theorem tick_inputs_use_tick_delta:
  assumes "distinct (map client_id (room_clients room))"
  shows "\<exists>room'. tick_processInputs H room = Inr room'
     \<and> lastTick room' = dateNow H (dateNowCalls room)
     \<and> length (room_clients room') = length (room_clients room)
     \<and> (\<forall>i < length (room_clients room). \<forall>p.
           players (gameWorld room) (client_id (room_clients room ! i)) = Some p \<and> isAlive p \<longrightarrow>
             players (gameWorld room') (client_id (room_clients room ! i))
               = Some (apply_records H
                         (f64 (f64 (dateNow H (dateNowCalls room) - lastTick room) / 1000))
                         (inputBuffer (room_clients room ! i)) p)
             \<and> inputBuffer (room_clients room' ! i)
                 = filter (\<lambda>e. timestamp e
                              > f64 (dateNow H (dateNowCalls room + 1
                                       + clock_reads (gameWorld room) (take i (room_clients room)))
                                     - 1000))
                     (map (\<lambda>e. e\<lparr>processed := True\<rparr>) (inputBuffer (room_clients room ! i)))
             \<and> (\<forall>e \<in> set (inputBuffer (room_clients room' ! i)). processed e))
     \<and> (\<forall>i < length (room_clients room). \<forall>p.
           players (gameWorld room) (client_id (room_clients room ! i)) = Some p \<and> \<not> isAlive p \<longrightarrow>
             room_clients room' ! i = room_clients room ! i
             \<and> players (gameWorld room') (client_id (room_clients room ! i)) = Some p)
     \<and> (\<forall>ident b. bullets (gameWorld room') ident = Some b \<longrightarrow>
           bullets (gameWorld room) ident = Some b
           \<or> (\<exists>c \<in> set (room_clients room). \<exists>e \<in> set (inputBuffer c).
                 \<not> processed e \<and> shoot (entry_input e) \<and> createdAt b = timestamp e))"
  using assms by (rule tick_processInputs_outcome)

lemma updatePlayerMovement_coast:
  fixes p :: "'a Body_scheme" and i :: "'b MoveInput_scheme"
  assumes "\<not> thrust i" "\<not> brake i" "rotate_input i = 0"
    and "linearV (velocity p) = \<lparr>vec_x = 3, vec_y = 0\<rparr>"
    and "vec_y (position (transform p)) = 100"
  shows "updatePlayerMovement H p i dt
     = p\<lparr>transform := \<lparr>position =
             \<lparr>vec_x = fmod (f64 (fmod (f64 (vec_x (position (transform p)) + f64 (3 * dt))) 4096
                                  + 4096)) 4096,
              vec_y = 100\<rparr>,
           rotation = rotation (transform p)\<rparr>\<rparr>"
proof -
  have lim: "Vec2_limitLength_f64 \<lparr>vec_x = 3, vec_y = 0\<rparr> PLAYER_MAX_SPEED = \<lparr>vec_x = 3, vec_y = 0\<rparr>"
    by (simp add: Vec2_limitLength_f64_def Vec2_lengthSquared_f64_def PLAYER_MAX_SPEED_def f64_eval)
  have y: "fmod (f64 (fmod (f64 100) 4096 + 4096)) 4096 = 100"
    by (simp add: f64_eval fmod_def trunc_def)
  have wrap: "wrapPosition (Vec2_add_f64 (position (transform p))
                 (Vec2_multiply_f64 \<lparr>vec_x = 3, vec_y = 0\<rparr> dt)) WORLD_WIDTH WORLD_HEIGHT
     = \<lparr>vec_x = fmod (f64 (fmod (f64 (vec_x (position (transform p)) + f64 (3 * dt))) 4096
                          + 4096)) 4096,
        vec_y = 100\<rparr>"
    using assms(5)
    by (simp add: wrapPosition_def Vec2_add_f64_def Vec2_multiply_f64_def WORLD_WIDTH_def
        WORLD_HEIGHT_def f64_zero y)
  have v: "(velocity p)\<lparr>linearV := \<lparr>vec_x = 3, vec_y = 0\<rparr>\<rparr> = velocity p"
    using assms(4) by simp
  show ?thesis
    using assms(1-3) by (simp add: updatePlayerMovement_def Let_def assms(4) lim wrap v)
qed

lemma example_shoot_input:
  "\<not> thrust example_shoot" "\<not> brake example_shoot" "rotate_input example_shoot = 0"
  "shoot example_shoot"
  by (simp_all add: example_shoot_def)

lemma example_x_steps:
  "fmod (f64 (fmod (f64 (100 + f64 (3 * (1224979098644775 / 72057594037927936)))) 4096 + 4096)) 4096
     = 110007237870617 / 1099511627776"
  "fmod (f64 (fmod (f64 (110007237870617 / 1099511627776
                           + f64 (3 * (1224979098644775 / 72057594037927936)))) 4096 + 4096)) 4096
     = 55031656481817 / 549755813888"
  "fmod (f64 (fmod (f64 (100 + f64 (3 * (1152921504606847 / 72057594037927936)))) 4096 + 4096)) 4096
     = 110003939335733 / 1099511627776"
  "fmod (f64 (fmod (f64 (110003939335733 / 1099511627776
                           + f64 (3 * (1152921504606847 / 72057594037927936)))) 4096 + 4096)) 4096
     = 55028357946933 / 549755813888"
  "fmod (f64 (fmod (f64 (100 + f64 (3 * (4803839602528529 / 288230376151711744)))) 4096 + 4096)) 4096
     = 110006138358989 / 1099511627776"
  "fmod (f64 (fmod (f64 (110006138358989 / 1099511627776
                           + f64 (3 * (4803839602528529 / 288230376151711744)))) 4096 + 4096)) 4096
     = 55030556970189 / 549755813888"
  "fmod (f64 (fmod (f64 (100 + f64 (3 * (5764607523034235 / 576460752303423488)))) 4096 + 4096)) 4096
     = 109984148126433 / 1099511627776"
  "fmod (f64 (fmod (f64 (109984148126433 / 1099511627776
                           + f64 (3 * (5764607523034235 / 576460752303423488)))) 4096 + 4096)) 4096
     = 55008566737633 / 549755813888"
  by (simp_all add: f64_eval fmod_def trunc_def)

lemma example_deltas:
  "f64 (f64 (5000 - 4983) / 1000) = 1224979098644775 / 72057594037927936"
  "f64 (f64 (5000 - 4984) / 1000) = 1152921504606847 / 72057594037927936"
  "f64 (f64 (4960 - 4950) / 1000) = 5764607523034235 / 576460752303423488"
  "f64 (f64 (4970 - 4960) / 1000) = 5764607523034235 / 576460752303423488"
  by (simp_all add: f64_eval)

lemma example_apply_records:
  "apply_records example_host dt example_entries example_player
     = example_player\<lparr>transform := \<lparr>position =
           \<lparr>vec_x = fmod (f64 (fmod (f64 (fmod (f64 (fmod (f64 (100 + f64 (3 * dt))) 4096 + 4096)) 4096
                                         + f64 (3 * dt))) 4096 + 4096)) 4096,
            vec_y = 100\<rparr>,
         rotation = 0\<rparr>, lastShotTime := 4960\<rparr>"
proof -
  let ?e2 = "\<lparr>sequence = 2, timestamp = 4960, entry_input = example_shoot, processed = False\<rparr>"
  let ?e3 = "\<lparr>sequence = 3, timestamp = 4970, entry_input = example_shoot, processed = False\<rparr>"
  have g2: "apply_record example_host dt ?e2 example_player
      = updatePlayerMovement example_host (example_player\<lparr>lastShotTime := 4960\<rparr>) example_shoot dt"
    by (simp add: apply_record_def canPlayerShoot_def example_shoot_input example_player_def
        FIRE_RATE_def)
  have g3: "apply_record example_host dt ?e3 q = updatePlayerMovement example_host q example_shoot dt"
    if "lastShotTime q = 4960" for q
    using that by (simp add: apply_record_def canPlayerShoot_def FIRE_RATE_def)
  have s1: "updatePlayerMovement example_host (example_player\<lparr>lastShotTime := 4960\<rparr>) example_shoot dt
     = example_player\<lparr>transform := \<lparr>position =
           \<lparr>vec_x = fmod (f64 (fmod (f64 (100 + f64 (3 * dt))) 4096 + 4096)) 4096, vec_y = 100\<rparr>,
         rotation = 0\<rparr>, lastShotTime := 4960\<rparr>"
    by (subst updatePlayerMovement_coast[OF example_shoot_input(1-3)])
       (simp_all add: example_player_def)
  have s2: "updatePlayerMovement example_host
       (example_player\<lparr>transform := \<lparr>position = \<lparr>vec_x = a, vec_y = 100\<rparr>, rotation = 0\<rparr>,
                       lastShotTime := 4960\<rparr>) example_shoot dt
     = example_player\<lparr>transform := \<lparr>position =
           \<lparr>vec_x = fmod (f64 (fmod (f64 (a + f64 (3 * dt))) 4096 + 4096)) 4096, vec_y = 100\<rparr>,
         rotation = 0\<rparr>, lastShotTime := 4960\<rparr>" for a
    by (subst updatePlayerMovement_coast[OF example_shoot_input(1-3)])
       (simp_all add: example_player_def)
  have "apply_records example_host dt example_entries example_player
     = apply_record example_host dt ?e3 (apply_record example_host dt ?e2 example_player)"
    by (simp add: apply_records_def example_entries_def)
  also have "\<dots> = example_player\<lparr>transform := \<lparr>position =
           \<lparr>vec_x = fmod (f64 (fmod (f64 (fmod (f64 (fmod (f64 (100 + f64 (3 * dt))) 4096 + 4096)) 4096
                                         + f64 (3 * dt))) 4096 + 4096)) 4096,
            vec_y = 100\<rparr>,
         rotation = 0\<rparr>, lastShotTime := 4960\<rparr>"
    unfolding g2 s1 by (subst g3) (simp_all add: s2)
  finally show ?thesis .
qed

lemma example_apply_records_17:
  "apply_records example_host (1224979098644775 / 72057594037927936) example_entries example_player
     = example_player\<lparr>transform := \<lparr>position = \<lparr>vec_x = 55031656481817 / 549755813888,
                                                     vec_y = 100\<rparr>, rotation = 0\<rparr>,
                      lastShotTime := 4960\<rparr>"
  by (simp only: example_apply_records example_x_steps)

lemma example_apply_records_16:
  "apply_records example_host (1152921504606847 / 72057594037927936) example_entries example_player
     = example_player\<lparr>transform := \<lparr>position = \<lparr>vec_x = 55028357946933 / 549755813888,
                                                     vec_y = 100\<rparr>, rotation = 0\<rparr>,
                      lastShotTime := 4960\<rparr>"
  by (simp only: example_apply_records example_x_steps)

lemma example_room_facts:
  "distinct (map client_id (room_clients (example_room\<lparr>lastTick := L\<rparr>)))"
  "room_clients (example_room\<lparr>lastTick := L\<rparr>) ! 0 = example_client"
  "(0::nat) < length (room_clients (example_room\<lparr>lastTick := L\<rparr>))"
  "players (gameWorld (example_room\<lparr>lastTick := L\<rparr>))
     (client_id (room_clients (example_room\<lparr>lastTick := L\<rparr>) ! 0)) = Some example_player"
  "isAlive example_player"
  "dateNow example_host (dateNowCalls (example_room\<lparr>lastTick := L\<rparr>)) = 5000"
  "lastTick (example_room\<lparr>lastTick := L\<rparr>) = L"
  "client_id example_client = ''p1''"
  "inputBuffer example_client = example_entries"
  "f64 (dateNow example_host
          (dateNowCalls (example_room\<lparr>lastTick := L\<rparr>) + 1
             + clock_reads (gameWorld (example_room\<lparr>lastTick := L\<rparr>))
                 (take 0 (room_clients (example_room\<lparr>lastTick := L\<rparr>)))) - 1000) = 4100"
  "example_room\<lparr>lastTick := 4983\<rparr> = example_room"
  by (simp_all add: example_room_def example_client_def example_world_def example_player_def
      example_host_def clock_reads_def f64_eval)

lemma example_buffer_kept:
  "filter (\<lambda>e. timestamp e > 4100) (map (\<lambda>e. e\<lparr>processed := True\<rparr>) example_entries)
     = map (\<lambda>e. e\<lparr>processed := True\<rparr>) example_entries"
  by (simp add: example_entries_def)

lemma example_tick_at:
  "\<exists>room'. tick_processInputs example_host (example_room\<lparr>lastTick := L\<rparr>) = Inr room'
     \<and> lastTick room' = 5000
     \<and> players (gameWorld room') ''p1''
         = Some (apply_records example_host (f64 (f64 (5000 - L) / 1000))
                   example_entries example_player)
     \<and> inputBuffer (room_clients room' ! 0) = map (\<lambda>e. e\<lparr>processed := True\<rparr>) example_entries"
proof -
  let ?room = "example_room\<lparr>lastTick := L\<rparr>"
  obtain room' where
    r: "tick_processInputs example_host ?room = Inr room'"
    and l: "lastTick room' = dateNow example_host (dateNowCalls ?room)"
    and a: "\<forall>i < length (room_clients ?room). \<forall>p.
           players (gameWorld ?room) (client_id (room_clients ?room ! i)) = Some p
             \<and> isAlive p \<longrightarrow>
             players (gameWorld room') (client_id (room_clients ?room ! i))
               = Some (apply_records example_host
                         (f64 (f64 (dateNow example_host (dateNowCalls ?room)
                                      - lastTick ?room) / 1000))
                         (inputBuffer (room_clients ?room ! i)) p)
             \<and> inputBuffer (room_clients room' ! i)
                 = filter (\<lambda>e. timestamp e
                              > f64 (dateNow example_host (dateNowCalls ?room + 1
                                       + clock_reads (gameWorld ?room)
                                           (take i (room_clients ?room)))
                                     - 1000))
                     (map (\<lambda>e. e\<lparr>processed := True\<rparr>) (inputBuffer (room_clients ?room ! i)))
             \<and> (\<forall>e \<in> set (inputBuffer (room_clients room' ! i)). processed e)"
    using tick_processInputs_outcome[OF example_room_facts(1), of example_host L] by blast
  from a[rule_format, OF example_room_facts(3), of example_player] example_room_facts(4,5)
  have "players (gameWorld room') (client_id (room_clients ?room ! 0))
               = Some (apply_records example_host
                         (f64 (f64 (dateNow example_host (dateNowCalls ?room)
                                      - lastTick ?room) / 1000))
                         (inputBuffer (room_clients ?room ! 0)) example_player)
        \<and> inputBuffer (room_clients room' ! 0)
                 = filter (\<lambda>e. timestamp e
                              > f64 (dateNow example_host (dateNowCalls ?room + 1
                                       + clock_reads (gameWorld ?room)
                                           (take 0 (room_clients ?room)))
                                     - 1000))
                     (map (\<lambda>e. e\<lparr>processed := True\<rparr>) (inputBuffer (room_clients ?room ! 0)))"
    by blast
  then have p: "players (gameWorld room') ''p1''
      = Some (apply_records example_host (f64 (f64 (5000 - L) / 1000))
                example_entries example_player)"
    and b: "inputBuffer (room_clients room' ! 0)
      = map (\<lambda>e. e\<lparr>processed := True\<rparr>) example_entries"
    unfolding example_room_facts(2,6,7,8,9,10) example_buffer_kept by blast+
  have lt: "lastTick room' = 5000" using l unfolding example_room_facts(6) .
  from r lt p b show ?thesis by blast
qed

lemma example_coast_player:
  "updatePlayerMovement example_host
       (example_player\<lparr>transform := \<lparr>position = \<lparr>vec_x = a, vec_y = 100\<rparr>, rotation = 0\<rparr>\<rparr>)
       example_shoot dt
     = example_player\<lparr>transform := \<lparr>position =
           \<lparr>vec_x = fmod (f64 (fmod (f64 (a + f64 (3 * dt))) 4096 + 4096)) 4096, vec_y = 100\<rparr>,
         rotation = 0\<rparr>\<rparr>"
  by (subst updatePlayerMovement_coast[OF example_shoot_input(1-3)])
     (simp_all add: example_player_def)

lemma example_spec_replay:
  "spec_replay_by_timestamp example_host 0 example_entries example_player
     = example_player\<lparr>transform := \<lparr>position = \<lparr>vec_x = 55008566737633 / 549755813888,
                                                     vec_y = 100\<rparr>, rotation = 0\<rparr>\<rparr>"
proof -
  have p: "example_player
      = example_player\<lparr>transform := \<lparr>position = \<lparr>vec_x = 100, vec_y = 100\<rparr>, rotation = 0\<rparr>\<rparr>"
    by (simp add: example_player_def)
  have "spec_replay_by_timestamp example_host 0 example_entries example_player
      = updatePlayerMovement example_host
          (updatePlayerMovement example_host example_player example_shoot
             (f64 (f64 (4960 - 4950) / 1000)))
          example_shoot (f64 (f64 (4970 - 4960) / 1000))"
    by (simp add: example_entries_def)
  also have "\<dots> = updatePlayerMovement example_host
          (updatePlayerMovement example_host
             (example_player\<lparr>transform := \<lparr>position = \<lparr>vec_x = 100, vec_y = 100\<rparr>, rotation = 0\<rparr>\<rparr>)
             example_shoot (5764607523034235 / 576460752303423488))
          example_shoot (5764607523034235 / 576460752303423488)"
    unfolding example_deltas using p by simp
  also have "\<dots> = example_player\<lparr>transform := \<lparr>position = \<lparr>vec_x = 55008566737633 / 549755813888,
                                                     vec_y = 100\<rparr>, rotation = 0\<rparr>\<rparr>"
    by (simp only: example_coast_player example_x_steps)
  finally show ?thesis .
qed

lemma example_reconcile:
  "predictedState (reconcile example_host example_prediction [example_player])
     = Some \<lparr>transform = \<lparr>position = \<lparr>vec_x = 55030556970189 / 549755813888, vec_y = 100\<rparr>,
                            rotation = 0\<rparr>,
             velocity = \<lparr>linearV = \<lparr>vec_x = 3, vec_y = 0\<rparr>, angular = 0\<rparr>,
             predicted_id = ''p1'', predicted_isAlive = True\<rparr>"
proof -
  have s: "updatePlayerMovement example_host
       \<lparr>transform = \<lparr>position = \<lparr>vec_x = a, vec_y = 100\<rparr>, rotation = 0\<rparr>,
        velocity = \<lparr>linearV = \<lparr>vec_x = 3, vec_y = 0\<rparr>, angular = 0\<rparr>\<rparr>
       example_shoot dt
     = \<lparr>transform = \<lparr>position =
           \<lparr>vec_x = fmod (f64 (fmod (f64 (a + f64 (3 * dt))) 4096 + 4096)) 4096,
            vec_y = 100\<rparr>, rotation = 0\<rparr>,
        velocity = \<lparr>linearV = \<lparr>vec_x = 3, vec_y = 0\<rparr>, angular = 0\<rparr>\<rparr>" for a dt
    by (subst updatePlayerMovement_coast[OF example_shoot_input(1-3)]) simp_all
  have "predictedState (reconcile example_host example_prediction [example_player])
     = Some \<lparr>transform = \<lparr>position =
                 \<lparr>vec_x = fmod (f64 (fmod (f64 (fmod (f64 (fmod (f64 (100 + f64 (3 * FIXED_TIMESTEP)))
                                                                   4096 + 4096)) 4096
                                               + f64 (3 * FIXED_TIMESTEP))) 4096 + 4096)) 4096,
                  vec_y = 100\<rparr>,
               rotation = 0\<rparr>,
             velocity = \<lparr>linearV = \<lparr>vec_x = 3, vec_y = 0\<rparr>, angular = 0\<rparr>,
             predicted_id = ''p1'', predicted_isAlive = True\<rparr>"
    by (simp add: reconcile_def example_prediction_def example_entries_def example_player_def
        Let_def applyInputToState_def s)
  then show ?thesis
    by (simp only: FIXED_TIMESTEP_value example_x_steps)
qed

lemma tick_delta_never_fixed:
  "f64 (f64 (of_int m - of_int n) / 1000) \<noteq> FIXED_TIMESTEP"
proof -
  have "f64 (of_int (m - n)) \<in> \<int>" by (rule f64_of_int_Ints)
  then obtain j :: int where j: "f64 (of_int m - of_int n) = of_int j"
    by (auto elim: Ints_cases)
  have lo: "f64 (16 / 1000) < FIXED_TIMESTEP" and hi: "FIXED_TIMESTEP < f64 (17 / 1000)"
    unfolding FIXED_TIMESTEP_value by (simp_all add: f64_eval)
  show ?thesis
  proof (cases "j \<le> 16")
    case True
    then have "(of_int j :: real) \<le> 16" by linarith
    then have "(of_int j :: real) / 1000 \<le> 16 / 1000" by simp
    then have "f64 (of_int j / 1000) \<le> f64 (16 / 1000)" by (rule f64_mono)
    with lo show ?thesis unfolding j by simp
  next
    case False
    then have "(17 :: real) \<le> of_int j" by linarith
    then have "(17 :: real) / 1000 \<le> of_int j / 1000" by simp
    then have "f64 (17 / 1000) \<le> f64 (of_int j / 1000)" by (rule f64_mono)
    with hi show ?thesis unfolding j by simp
  qed
qed

text \<open>
  C2. The server does not apply the inputs "through \<open>updatePlayerMovement\<close>" with the
  step that the client replays them with. \<open>reconcile\<close> replays every input with
  \<open>FIXED_TIMESTEP\<close>, the double nearest to \<open>1/60\<close>; \<open>Room.tick\<close> applies every input
  with \<open>(now - lastTick) / 1000\<close>, and for clock readings in whole milliseconds that
  double is never \<open>FIXED_TIMESTEP\<close>. With the same state \<open>S\<close> (position \<open>(100, 100)\<close>,
  velocity \<open>(3, 0)\<close>) and the same two unacknowledged inputs, the client predicts
  \<open>x = 100.10000000000036\<close>; the server reaches \<open>x = 100.10200000000077\<close> in a tick of
  17 ms and \<open>x = 100.09599999999955\<close> in a tick of 16 ms: the transforms differ.
\<close>

theorem reconcile_step_is_never_the_tick_delta:
  "(\<forall>m n :: int. f64 (f64 (of_int m - of_int n) / 1000) \<noteq> FIXED_TIMESTEP)
   \<and> (\<exists>st. predictedState (reconcile example_host example_prediction [example_player]) = Some st
          \<and> position (transform st) = \<lparr>vec_x = 55030556970189 / 549755813888, vec_y = 100\<rparr>
          \<and> (\<exists>room' p'. tick_processInputs example_host example_room = Inr room'
                \<and> players (gameWorld room') ''p1'' = Some p'
                \<and> position (transform p') = \<lparr>vec_x = 55031656481817 / 549755813888, vec_y = 100\<rparr>
                \<and> transform p' \<noteq> transform st)
          \<and> (\<exists>room' p'. tick_processInputs example_host (example_room\<lparr>lastTick := 4984\<rparr>)
                            = Inr room'
                \<and> players (gameWorld room') ''p1'' = Some p'
                \<and> position (transform p') = \<lparr>vec_x = 55028357946933 / 549755813888, vec_y = 100\<rparr>
                \<and> transform p' \<noteq> transform st))"
proof -
  let ?st = "\<lparr>transform = \<lparr>position = \<lparr>vec_x = 55030556970189 / 549755813888, vec_y = 100\<rparr>,
                            rotation = 0\<rparr>,
             velocity = \<lparr>linearV = \<lparr>vec_x = 3, vec_y = 0\<rparr>, angular = 0\<rparr>,
             predicted_id = ''p1'', predicted_isAlive = True\<rparr>"
  let ?p17 = "example_player\<lparr>transform := \<lparr>position = \<lparr>vec_x = 55031656481817 / 549755813888,
                                                     vec_y = 100\<rparr>, rotation = 0\<rparr>,
                      lastShotTime := 4960\<rparr>"
  let ?p16 = "example_player\<lparr>transform := \<lparr>position = \<lparr>vec_x = 55028357946933 / 549755813888,
                                                     vec_y = 100\<rparr>, rotation = 0\<rparr>,
                      lastShotTime := 4960\<rparr>"
  have never: "\<forall>m n :: int. f64 (f64 (of_int m - of_int n) / 1000) \<noteq> FIXED_TIMESTEP"
    by (intro allI) (rule tick_delta_never_fixed)
  obtain r17 where
    r17: "tick_processInputs example_host example_room = Inr r17"
         "players (gameWorld r17) ''p1'' = Some ?p17"
    using example_tick_at[of 4983]
    unfolding example_room_facts(11) example_deltas example_apply_records_17 by blast
  obtain r16 where
    r16: "tick_processInputs example_host (example_room\<lparr>lastTick := 4984\<rparr>) = Inr r16"
         "players (gameWorld r16) ''p1'' = Some ?p16"
    using example_tick_at[of 4984]
    unfolding example_deltas example_apply_records_16 by blast
  have s17: "\<exists>room' p'. tick_processInputs example_host example_room = Inr room'
                \<and> players (gameWorld room') ''p1'' = Some p'
                \<and> position (transform p') = \<lparr>vec_x = 55031656481817 / 549755813888, vec_y = 100\<rparr>
                \<and> transform p' \<noteq> transform ?st"
    using r17 by (intro exI[of _ r17] exI[of _ ?p17]) simp
  have s16: "\<exists>room' p'. tick_processInputs example_host (example_room\<lparr>lastTick := 4984\<rparr>)
                            = Inr room'
                \<and> players (gameWorld room') ''p1'' = Some p'
                \<and> position (transform p') = \<lparr>vec_x = 55028357946933 / 549755813888, vec_y = 100\<rparr>
                \<and> transform p' \<noteq> transform ?st"
    using r16 by (intro exI[of _ r16] exI[of _ ?p16]) simp
  have pos: "position (transform ?st) = \<lparr>vec_x = 55030556970189 / 549755813888, vec_y = 100\<rparr>"
    by simp
  have client: "\<exists>st. predictedState (reconcile example_host example_prediction [example_player]) = Some st
          \<and> position (transform st) = \<lparr>vec_x = 55030556970189 / 549755813888, vec_y = 100\<rparr>
          \<and> (\<exists>room' p'. tick_processInputs example_host example_room = Inr room'
                \<and> players (gameWorld room') ''p1'' = Some p'
                \<and> position (transform p') = \<lparr>vec_x = 55031656481817 / 549755813888, vec_y = 100\<rparr>
                \<and> transform p' \<noteq> transform st)
          \<and> (\<exists>room' p'. tick_processInputs example_host (example_room\<lparr>lastTick := 4984\<rparr>)
                            = Inr room'
                \<and> players (gameWorld room') ''p1'' = Some p'
                \<and> position (transform p') = \<lparr>vec_x = 55028357946933 / 549755813888, vec_y = 100\<rparr>
                \<and> transform p' \<noteq> transform st)"
    by (rule exI[of _ ?st]) (rule conjI[OF example_reconcile conjI[OF pos conjI[OF s17 s16]]])
  show ?thesis by (rule conjI[OF never client])
qed

text \<open>
  C3, as stated, takes the movement step of a record from its own timestamp. In a tick
  that comes 17 ms after the previous one, two unprocessed records stamped 10 ms after
  their predecessors move the player from \<open>x = 100\<close> to \<open>x = 100.10200000000077\<close> at
  velocity \<open>(3, 0)\<close>: two steps of 17 ms. With steps taken from the timestamps the player
  would be at \<open>x = 100.05999999999949\<close>.
\<close>

theorem tick_delta_not_timestamp_counterexample:
  "\<exists>room' p'. tick_processInputs example_host example_room = Inr room'
      \<and> players (gameWorld room') ''p1'' = Some p'
      \<and> position (transform p') = \<lparr>vec_x = 55031656481817 / 549755813888, vec_y = 100\<rparr>
      \<and> position (transform (spec_replay_by_timestamp example_host 0 example_entries example_player))
           = \<lparr>vec_x = 55008566737633 / 549755813888, vec_y = 100\<rparr>
      \<and> transform p' \<noteq> transform (spec_replay_by_timestamp example_host 0 example_entries
                                      example_player)"
proof -
  let ?p17 = "example_player\<lparr>transform := \<lparr>position = \<lparr>vec_x = 55031656481817 / 549755813888,
                                                     vec_y = 100\<rparr>, rotation = 0\<rparr>,
                      lastShotTime := 4960\<rparr>"
  obtain r17 where
    r17: "tick_processInputs example_host example_room = Inr r17"
         "players (gameWorld r17) ''p1'' = Some ?p17"
    using example_tick_at[of 4983]
    unfolding example_room_facts(11) example_deltas example_apply_records_17 by blast
  show ?thesis
    using r17 by (intro exI[of _ r17] exI[of _ ?p17]) (simp add: example_spec_replay)
qed

theorem tick_inputs_use_tick_delta_witness:
  "\<exists>room' p'. tick_processInputs example_host example_room = Inr room'
      \<and> lastTick room' = 5000
      \<and> players (gameWorld room') ''p1'' = Some p'
      \<and> position (transform p') = \<lparr>vec_x = 55031656481817 / 549755813888, vec_y = 100\<rparr>
      \<and> lastShotTime p' = 4960
      \<and> inputBuffer (room_clients room' ! 0) = map (\<lambda>e. e\<lparr>processed := True\<rparr>) example_entries
      \<and> list_all processed (inputBuffer (room_clients room' ! 0))"
proof -
  let ?room = "example_room\<lparr>lastTick := 4983\<rparr>"
  let ?p17 = "example_player\<lparr>transform := \<lparr>position = \<lparr>vec_x = 55031656481817 / 549755813888,
                                                     vec_y = 100\<rparr>, rotation = 0\<rparr>,
                      lastShotTime := 4960\<rparr>"
  obtain room' where
    r: "tick_processInputs example_host ?room = Inr room'"
    and l: "lastTick room' = dateNow example_host (dateNowCalls ?room)"
    and a: "\<forall>i < length (room_clients ?room). \<forall>p.
           players (gameWorld ?room) (client_id (room_clients ?room ! i)) = Some p
             \<and> isAlive p \<longrightarrow>
             players (gameWorld room') (client_id (room_clients ?room ! i))
               = Some (apply_records example_host
                         (f64 (f64 (dateNow example_host (dateNowCalls ?room)
                                      - lastTick ?room) / 1000))
                         (inputBuffer (room_clients ?room ! i)) p)
             \<and> inputBuffer (room_clients room' ! i)
                 = filter (\<lambda>e. timestamp e
                              > f64 (dateNow example_host (dateNowCalls ?room + 1
                                       + clock_reads (gameWorld ?room)
                                           (take i (room_clients ?room)))
                                     - 1000))
                     (map (\<lambda>e. e\<lparr>processed := True\<rparr>) (inputBuffer (room_clients ?room ! i)))
             \<and> (\<forall>e \<in> set (inputBuffer (room_clients room' ! i)). processed e)"
    using tick_inputs_use_tick_delta[OF example_room_facts(1), of example_host 4983] by blast
  from a[rule_format, OF example_room_facts(3), of example_player] example_room_facts(4,5)
  have "players (gameWorld room') (client_id (room_clients ?room ! 0))
               = Some (apply_records example_host
                         (f64 (f64 (dateNow example_host (dateNowCalls ?room)
                                      - lastTick ?room) / 1000))
                         (inputBuffer (room_clients ?room ! 0)) example_player)
        \<and> inputBuffer (room_clients room' ! 0)
                 = filter (\<lambda>e. timestamp e
                              > f64 (dateNow example_host (dateNowCalls ?room + 1
                                       + clock_reads (gameWorld ?room)
                                           (take 0 (room_clients ?room)))
                                     - 1000))
                     (map (\<lambda>e. e\<lparr>processed := True\<rparr>) (inputBuffer (room_clients ?room ! 0)))
        \<and> (\<forall>e \<in> set (inputBuffer (room_clients room' ! 0)). processed e)"
    by blast
  then have p: "players (gameWorld room') ''p1'' = Some ?p17"
    and b: "inputBuffer (room_clients room' ! 0)
      = map (\<lambda>e. e\<lparr>processed := True\<rparr>) example_entries"
    and m: "\<forall>e \<in> set (inputBuffer (room_clients room' ! 0)). processed e"
    unfolding example_room_facts(2,6,7,8,9,10) example_buffer_kept example_deltas
      example_apply_records_17
    by blast+
  have lt: "lastTick room' = 5000" using l unfolding example_room_facts(6) .
  have run: "tick_processInputs example_host example_room = Inr room'"
    using r unfolding example_room_facts(11) .
  have pos: "position (transform ?p17) = \<lparr>vec_x = 55031656481817 / 549755813888, vec_y = 100\<rparr>"
    by simp
  have shot: "lastShotTime ?p17 = 4960" by simp
  have pr: "list_all processed (inputBuffer (room_clients room' ! 0))"
    using m by (simp add: list_all_iff)
  show ?thesis
    by (intro exI[of _ room'] exI[of _ ?p17])
       (rule conjI[OF run conjI[OF lt conjI[OF p conjI[OF pos conjI[OF shot conjI[OF b pr]]]]]])
qed

section \<open>Spatial index\<close>

lemma remove_from_cell_frame:
  "objects (remove_from_cell i key h) = objects h"
  "cellSize (remove_from_cell i key h) = cellSize h"
  by (simp_all add: remove_from_cell_def Let_def split: option.splits)

lemma inCell_objects_update:
  "inCell (h\<lparr>objects := m\<rparr>) key i = inCell h key i"
  by (simp add: inCell_def)

lemma removeAll_eq_Nil: "removeAll x xs = [] \<longleftrightarrow> set xs \<subseteq> {x}"
  by (induction xs) auto

lemma hash_invD:
  "hash_inv h \<Longrightarrow>
     inCell h key ident = (case objects h ident of None \<Rightarrow> False
                            | Some obj \<Rightarrow> key \<in> set (cellKeys obj))"
  unfolding hash_inv_def by blast

lemma inCell_remove_from_cell:
  "inCell (remove_from_cell i key h) key' i' \<longleftrightarrow> inCell h key' i' \<and> \<not> (key' = key \<and> i' = i)"
  by (auto simp: remove_from_cell_def inCell_def Let_def removeAll_eq_Nil split: option.splits)

lemma fold_remove_from_cell:
  "objects (fold (remove_from_cell i) keys h) = objects h
   \<and> cellSize (fold (remove_from_cell i) keys h) = cellSize h
   \<and> (\<forall>key' i'. inCell (fold (remove_from_cell i) keys h) key' i'
          \<longleftrightarrow> inCell h key' i' \<and> \<not> (key' \<in> set keys \<and> i' = i))"
  by (induction keys arbitrary: h)
     (auto simp: remove_from_cell_frame inCell_remove_from_cell)

lemma SpatialHash_remove_result:
  assumes "hash_inv h"
  shows "objects (SpatialHash_remove h i) = (objects h)(i := None)"
    and "cellSize (SpatialHash_remove h i) = cellSize h"
    and "inCell (SpatialHash_remove h i) key' i' \<longleftrightarrow> inCell h key' i' \<and> i' \<noteq> i"
proof -
  show "objects (SpatialHash_remove h i) = (objects h)(i := None)"
    by (auto simp: SpatialHash_remove_def Let_def fold_remove_from_cell split: option.splits)
  show "cellSize (SpatialHash_remove h i) = cellSize h"
    by (simp add: SpatialHash_remove_def Let_def fold_remove_from_cell split: option.splits)
  show "inCell (SpatialHash_remove h i) key' i' \<longleftrightarrow> inCell h key' i' \<and> i' \<noteq> i"
  proof (cases "objects h i")
    case None
    then have "\<not> inCell h key' i" using hash_invD[OF assms, of key' i] by simp
    then show ?thesis using None by (auto simp: SpatialHash_remove_def)
  next
    case (Some obj)
    have k: "inCell h key' i \<longleftrightarrow> key' \<in> set (cellKeys obj)"
      using hash_invD[OF assms, of key' i] Some by simp
    have "inCell (SpatialHash_remove h i) key' i'
        = inCell (fold (remove_from_cell i) (cellKeys obj) h) key' i'"
      using Some by (simp add: SpatialHash_remove_def Let_def inCell_objects_update)
    also have "\<dots> \<longleftrightarrow> inCell h key' i' \<and> \<not> (key' \<in> set (cellKeys obj) \<and> i' = i)"
      using fold_remove_from_cell[of i "cellKeys obj" h] by blast
    also have "\<dots> \<longleftrightarrow> inCell h key' i' \<and> i' \<noteq> i"
      using k by blast
    finally show ?thesis .
  qed
qed

lemma add_to_cell_frame:
  "objects (add_to_cell i key h) = objects h"
  "cellSize (add_to_cell i key h) = cellSize h"
  by (simp_all add: add_to_cell_def Let_def)

lemma inCell_add_to_cell:
  "inCell (add_to_cell i key h) key' i' \<longleftrightarrow> inCell h key' i' \<or> (key' = key \<and> i' = i)"
  by (auto simp: add_to_cell_def inCell_def set_add_def Let_def split: option.splits)

lemma fold_add_to_cell:
  "objects (fold (add_to_cell i) keys h) = objects h
   \<and> cellSize (fold (add_to_cell i) keys h) = cellSize h
   \<and> (\<forall>key' i'. inCell (fold (add_to_cell i) keys h) key' i'
          \<longleftrightarrow> inCell h key' i' \<or> (key' \<in> set keys \<and> i' = i))"
  by (induction keys arbitrary: h)
     (auto simp: add_to_cell_frame inCell_add_to_cell)

lemma SpatialHash_insert_result:
  assumes "hash_inv h"
  shows "objects (SpatialHash_insert h i pos r)
           = (objects h)(i \<mapsto> \<lparr>obj_position = pos, obj_radius = r,
                                cellKeys = getCellsForObject (cellSize h) pos r\<rparr>)"
    and "cellSize (SpatialHash_insert h i pos r) = cellSize h"
    and "hash_inv (SpatialHash_insert h i pos r)"
proof -
  note rm = SpatialHash_remove_result[OF assms]
  show o: "objects (SpatialHash_insert h i pos r)
           = (objects h)(i \<mapsto> \<lparr>obj_position = pos, obj_radius = r,
                                cellKeys = getCellsForObject (cellSize h) pos r\<rparr>)"
    by (simp add: SpatialHash_insert_def Let_def fold_add_to_cell rm)
  show "cellSize (SpatialHash_insert h i pos r) = cellSize h"
    by (simp add: SpatialHash_insert_def Let_def fold_add_to_cell rm)
  have c: "inCell (SpatialHash_insert h i pos r) key' i'
      \<longleftrightarrow> (inCell h key' i' \<and> i' \<noteq> i)
          \<or> (key' \<in> set (getCellsForObject (cellSize h) pos r) \<and> i' = i)" for key' i'
    by (simp add: SpatialHash_insert_def Let_def fold_add_to_cell rm inCell_objects_update)
  show "hash_inv (SpatialHash_insert h i pos r)"
    unfolding hash_inv_def o c using assms by (auto simp: hash_inv_def split: option.splits)
qed

lemma fold_set_add:
  "distinct acc \<Longrightarrow>
     distinct (fold (\<lambda>ident cs. set_add cs ident) cell acc)
     \<and> set (fold (\<lambda>ident cs. set_add cs ident) cell acc) = set acc \<union> set cell"
  by (induction cell arbitrary: acc) (auto simp: set_add_def)

lemma query_fold:
  "distinct acc \<Longrightarrow>
     distinct (fold (\<lambda>key candidates.
                       case cells h key of
                         None \<Rightarrow> candidates
                       | Some cell \<Rightarrow> fold (\<lambda>ident cs. set_add cs ident) cell candidates) keys acc)
     \<and> set (fold (\<lambda>key candidates.
                       case cells h key of
                         None \<Rightarrow> candidates
                       | Some cell \<Rightarrow> fold (\<lambda>ident cs. set_add cs ident) cell candidates) keys acc)
         = set acc \<union> {i. \<exists>key \<in> set keys. inCell h key i}"
proof (induction keys arbitrary: acc)
  case Nil
  then show ?case by simp
next
  case (Cons key keys)
  let ?acc1 = "case cells h key of None \<Rightarrow> acc
               | Some cell \<Rightarrow> fold (\<lambda>ident cs. set_add cs ident) cell acc"
  have d1: "distinct ?acc1" and s1: "set ?acc1 = set acc \<union> {i. inCell h key i}"
    using Cons.prems fold_set_add[of acc]
    by (auto simp: inCell_def split: option.splits)
  from Cons.IH[OF d1] show ?case unfolding fold_Cons comp_def s1 by auto
qed

lemma SpatialHash_query_result:
  "distinct (SpatialHash_query h pos r)"
  "set (SpatialHash_query h pos r)
     = {i. \<exists>key \<in> set (getCellsForObject (cellSize h) pos r). inCell h key i}"
  using query_fold[of "[]" h "getCellsForObject (cellSize h) pos r"]
  by (simp_all add: SpatialHash_query_def)

lemma set_getCellsForObject:
  "set (getCellsForObject cs pos r)
     = {(x, y). \<lfloor>(vec_x pos - r) / cs\<rfloor> \<le> x \<and> x \<le> \<lfloor>(vec_x pos + r) / cs\<rfloor>
              \<and> \<lfloor>(vec_y pos - r) / cs\<rfloor> \<le> y \<and> y \<le> \<lfloor>(vec_y pos + r) / cs\<rfloor>}"
  by (auto simp: getCellsForObject_def Let_def)

lemma abs_le_distance:
  "\<bar>vec_x p - vec_x q\<bar> \<le> Vec2_distance p q" "\<bar>vec_y p - vec_y q\<bar> \<le> Vec2_distance p q"
proof -
  let ?dx = "vec_x p - vec_x q" and ?dy = "vec_y p - vec_y q"
  have "sqrt (?dx * ?dx) \<le> sqrt (?dx * ?dx + ?dy * ?dy)"
       "sqrt (?dy * ?dy) \<le> sqrt (?dx * ?dx + ?dy * ?dy)"
    by (rule real_sqrt_le_mono, simp)+
  then show "\<bar>?dx\<bar> \<le> Vec2_distance p q" "\<bar>?dy\<bar> \<le> Vec2_distance p q"
    by (simp_all add: Vec2_distance_def Vec2_length_def Vec2_subtract_def)
qed

lemma axis_ranges_meet:
  fixes a b :: real
  assumes "0 < cs" "0 \<le> r1" "0 \<le> r2" "\<bar>a - b\<bar> \<le> r1 + r2"
  shows "\<exists>x::int. \<lfloor>(a - r1) / cs\<rfloor> \<le> x \<and> x \<le> \<lfloor>(a + r1) / cs\<rfloor>
                 \<and> \<lfloor>(b - r2) / cs\<rfloor> \<le> x \<and> x \<le> \<lfloor>(b + r2) / cs\<rfloor>"
proof -
  define t where "t = max (a - r1) (b - r2)"
  have t: "a - r1 \<le> t" "b - r2 \<le> t" "t \<le> a + r1" "t \<le> b + r2"
    using assms(2-4) by (auto simp: t_def)
  have mono: "\<lfloor>u / cs\<rfloor> \<le> \<lfloor>v / cs\<rfloor>" if "u \<le> v" for u v
    using that assms(1) by (intro floor_mono divide_right_mono) simp_all
  show ?thesis
    using t by (intro exI[of _ "\<lfloor>t / cs\<rfloor>"] conjI mono)
qed

lemma cells_meet:
  assumes "0 < cs" "0 \<le> r1" "0 \<le> r2" "Vec2_distance p q \<le> r1 + r2"
  shows "set (getCellsForObject cs p r1) \<inter> set (getCellsForObject cs q r2) \<noteq> {}"
proof -
  have "\<bar>vec_x p - vec_x q\<bar> \<le> r1 + r2" "\<bar>vec_y p - vec_y q\<bar> \<le> r1 + r2"
    using abs_le_distance[of p q] assms(4) by simp_all
  from axis_ranges_meet[OF assms(1-3) this(1)] axis_ranges_meet[OF assms(1-3) this(2)]
  obtain x y :: int where
    "\<lfloor>(vec_x p - r1) / cs\<rfloor> \<le> x \<and> x \<le> \<lfloor>(vec_x p + r1) / cs\<rfloor>
       \<and> \<lfloor>(vec_x q - r2) / cs\<rfloor> \<le> x \<and> x \<le> \<lfloor>(vec_x q + r2) / cs\<rfloor>"
    "\<lfloor>(vec_y p - r1) / cs\<rfloor> \<le> y \<and> y \<le> \<lfloor>(vec_y p + r1) / cs\<rfloor>
       \<and> \<lfloor>(vec_y q - r2) / cs\<rfloor> \<le> y \<and> y \<le> \<lfloor>(vec_y q + r2) / cs\<rfloor>"
    by blast
  then have "(x, y) \<in> set (getCellsForObject cs p r1) \<inter> set (getCellsForObject cs q r2)"
    by (simp add: set_getCellsForObject)
  then show ?thesis by blast
qed

lemma insert_all_result:
  assumes "hash_inv h" "distinct (map fst objs)" "\<forall>i \<in> fst ` set objs. objects h i = None"
  shows "hash_inv (insert_all h objs) \<and> cellSize (insert_all h objs) = cellSize h
     \<and> (\<forall>i. objects (insert_all h objs) i
           = (case map_of objs i of
                None \<Rightarrow> objects h i
              | Some (pos, r) \<Rightarrow> Some \<lparr>obj_position = pos, obj_radius = r,
                                      cellKeys = getCellsForObject (cellSize h) pos r\<rparr>))"
  using assms
proof (induction objs arbitrary: h)
  case Nil
  then show ?case by (simp add: insert_all_def)
next
  case (Cons a objs)
  obtain i pos r where a: "a = (i, pos, r)" by (cases a)
  let ?h1 = "SpatialHash_insert h i pos r"
  note ins = SpatialHash_insert_result[OF Cons.prems(1), of i pos r]
  have d: "distinct (map fst objs)" "i \<notin> fst ` set objs" using Cons.prems(2) a by auto
  have none: "\<forall>j \<in> fst ` set objs. objects ?h1 j = None"
    using Cons.prems(3) d(2) by (auto simp: ins(1))
  from Cons.IH[OF ins(3) d(1) none]
  have IH: "hash_inv (insert_all ?h1 objs)" "cellSize (insert_all ?h1 objs) = cellSize ?h1"
    "\<And>j. objects (insert_all ?h1 objs) j
           = (case map_of objs j of
                None \<Rightarrow> objects ?h1 j
              | Some (pos, r) \<Rightarrow> Some \<lparr>obj_position = pos, obj_radius = r,
                                      cellKeys = getCellsForObject (cellSize ?h1) pos r\<rparr>)"
    by simp_all
  have unfold: "insert_all h (a # objs) = insert_all ?h1 objs"
    by (simp add: insert_all_def a)
  have mi: "map_of objs i = None" using d(2) by (simp add: map_of_eq_None_iff)
  show ?case
    unfolding unfold using IH(1,2) ins(2)
    by (auto simp: IH(3) ins(1,2) a mi split: option.splits)
qed

lemma SpatialHash_clear_fields:
  "cellSize (SpatialHash_clear h) = cellSize h" "objects (SpatialHash_clear h) i = None"
  by (simp_all add: SpatialHash_clear_def)

lemma hash_inv_clear: "hash_inv (SpatialHash_clear h)"
  by (simp add: hash_inv_def SpatialHash_clear_def inCell_def)

text \<open>
  C10. Insert objects with distinct identifiers into a cleared \<open>SpatialHash\<close> and query it
  with a position and a radius. The candidate list has no duplicates. It holds exactly the
  inserted identifiers whose bounding square, centre plus and minus radius, shares a grid
  cell with the query's bounding square. With a positive cell size and radii that are not
  negative, it therefore holds every inserted identifier whose circle is within
  \<open>r + rq\<close> of the query's centre, and so every one for which \<open>circleCircleCollision\<close>
  with the query circle reports a collision.
\<close>

theorem query_broad_phase_complete:
  assumes "distinct (map fst objs)"
  shows "distinct (SpatialHash_query (insert_all (SpatialHash_clear h0) objs) q rq)
    \<and> (\<forall>i. i \<in> set (SpatialHash_query (insert_all (SpatialHash_clear h0) objs) q rq)
           \<longleftrightarrow> (\<exists>pos r. (i, pos, r) \<in> set objs
                  \<and> set (getCellsForObject (cellSize h0) pos r)
                       \<inter> set (getCellsForObject (cellSize h0) q rq) \<noteq> {}))
    \<and> (\<forall>i pos r. (i, pos, r) \<in> set objs \<and> 0 < cellSize h0 \<and> 0 \<le> r \<and> 0 \<le> rq
           \<and> Vec2_distance pos q \<le> r + rq
           \<longrightarrow> i \<in> set (SpatialHash_query (insert_all (SpatialHash_clear h0) objs) q rq))
    \<and> (\<forall>i pos r. (i, pos, r) \<in> set objs \<and> 0 < cellSize h0 \<and> 0 \<le> r \<and> 0 \<le> rq
           \<and> collided (circleCircleCollision q rq pos r)
           \<longrightarrow> i \<in> set (SpatialHash_query (insert_all (SpatialHash_clear h0) objs) q rq))"
proof -
  let ?h = "insert_all (SpatialHash_clear h0) objs"
  have none: "\<forall>i \<in> fst ` set objs. objects (SpatialHash_clear h0) i = None"
    by (simp add: SpatialHash_clear_fields)
  from insert_all_result[OF hash_inv_clear assms none, unfolded SpatialHash_clear_fields]
  have inv: "hash_inv ?h" and size: "cellSize ?h = (cellSize h0)"
    and objs: "\<And>i. objects ?h i
           = (case map_of objs i of
                None \<Rightarrow> None
              | Some (pos, r) \<Rightarrow> Some \<lparr>obj_position = pos, obj_radius = r,
                                      cellKeys = getCellsForObject (cellSize h0) pos r\<rparr>)"
    by blast+
  have stored: "inCell ?h key i \<longleftrightarrow> (\<exists>pos r. (i, pos, r) \<in> set objs \<and> key \<in> set (getCellsForObject (cellSize h0) pos r))"
    for key i
  proof (cases "map_of objs i")
    case None
    then have "\<not> (\<exists>pos r. (i, pos, r) \<in> set objs)"
      by (metis map_of_eq_None_iff fst_conv image_eqI)
    then show ?thesis using hash_invD[OF inv, of key i] None by (simp add: objs)
  next
    case (Some pr)
    obtain pos r where pr: "pr = (pos, r)" by (cases pr)
    have mem: "(i, pos, r) \<in> set objs" using Some pr by (simp add: map_of_SomeD)
    have uniq: "pos' = pos \<and> r' = r" if "(i, pos', r') \<in> set objs" for pos' r'
      using that assms Some pr by (metis map_of_is_SomeI option.inject prod.inject)
    have o: "objects ?h i = Some \<lparr>obj_position = pos, obj_radius = r,
                                     cellKeys = getCellsForObject (cellSize h0) pos r\<rparr>"
      by (simp add: objs Some pr)
    have l: "inCell ?h key i \<longleftrightarrow> key \<in> set (getCellsForObject (cellSize h0) pos r)"
      using hash_invD[OF inv, of key i] by (simp add: o)
    have r: "(\<exists>pos' r'. (i, pos', r') \<in> set objs \<and> key \<in> set (getCellsForObject (cellSize h0) pos' r'))
               \<longleftrightarrow> key \<in> set (getCellsForObject (cellSize h0) pos r)"
      using mem uniq by blast
    show ?thesis unfolding l r ..
  qed
  have d: "distinct (SpatialHash_query ?h q rq)" by (rule SpatialHash_query_result(1))
  have m: "i \<in> set (SpatialHash_query ?h q rq)
           \<longleftrightarrow> (\<exists>pos r. (i, pos, r) \<in> set objs
                  \<and> set (getCellsForObject (cellSize h0) pos r)
                       \<inter> set (getCellsForObject (cellSize h0) q rq) \<noteq> {})" for i
  proof -
    have "i \<in> set (SpatialHash_query ?h q rq)
        \<longleftrightarrow> (\<exists>key \<in> set (getCellsForObject (cellSize h0) q rq). inCell ?h key i)"
      unfolding SpatialHash_query_result(2) size by simp
    also have "\<dots> \<longleftrightarrow> (\<exists>key \<in> set (getCellsForObject (cellSize h0) q rq).
          \<exists>pos r. (i, pos, r) \<in> set objs \<and> key \<in> set (getCellsForObject (cellSize h0) pos r))"
      unfolding stored ..
    also have "\<dots> \<longleftrightarrow> (\<exists>pos r. (i, pos, r) \<in> set objs
                  \<and> set (getCellsForObject (cellSize h0) pos r)
                       \<inter> set (getCellsForObject (cellSize h0) q rq) \<noteq> {})"
      by blast
    finally show ?thesis .
  qed
  have near: "i \<in> set (SpatialHash_query ?h q rq)"
    if "(i, pos, r) \<in> set objs" "0 < cellSize h0" "0 \<le> r" "0 \<le> rq" "Vec2_distance pos q \<le> r + rq"
    for i pos r
  proof -
    have "set (getCellsForObject (cellSize h0) pos r) \<inter> set (getCellsForObject (cellSize h0) q rq) \<noteq> {}"
      using that(2-5) by (rule cells_meet)
    with that(1) show ?thesis unfolding m by blast
  qed
  have hit: "i \<in> set (SpatialHash_query ?h q rq)"
    if "(i, pos, r) \<in> set objs" "0 < cellSize h0" "0 \<le> r" "0 \<le> rq"
       "collided (circleCircleCollision q rq pos r)"
    for i pos r
  proof -
    have "Vec2_distance pos q < rq + r"
      using that(5) by (simp add: circleCircleCollision_def Let_def Vec2_distance_def
          split: if_splits)
    then have "Vec2_distance pos q \<le> r + rq" by simp
    with that(1-4) show ?thesis by (intro near[of i pos r])
  qed
  show ?thesis
  proof (intro conjI allI impI)
    show "distinct (SpatialHash_query ?h q rq)" by (rule d)
  next
    fix i
    show "i \<in> set (SpatialHash_query ?h q rq)
           \<longleftrightarrow> (\<exists>pos r. (i, pos, r) \<in> set objs
                  \<and> set (getCellsForObject (cellSize h0) pos r)
                       \<inter> set (getCellsForObject (cellSize h0) q rq) \<noteq> {})"
      by (rule m)
  next
    fix i pos r
    assume "(i, pos, r) \<in> set objs \<and> 0 < cellSize h0 \<and> 0 \<le> r \<and> 0 \<le> rq
           \<and> Vec2_distance pos q \<le> r + rq"
    then show "i \<in> set (SpatialHash_query ?h q rq)" by (intro near[of i pos r]) simp_all
  next
    fix i pos r
    assume "(i, pos, r) \<in> set objs \<and> 0 < cellSize h0 \<and> 0 \<le> r \<and> 0 \<le> rq
           \<and> collided (circleCircleCollision q rq pos r)"
    then show "i \<in> set (SpatialHash_query ?h q rq)" by (intro hit[of i pos r]) simp_all
  qed
qed

lemma example_objects_facts:
  "distinct (map fst example_objects)"
  "(''asteroid_a1'', \<lparr>vec_x = 100, vec_y = 100\<rparr>, 40) \<in> set example_objects"
  "Vec2_distance \<lparr>vec_x = 100, vec_y = 100\<rparr> \<lparr>vec_x = 130, vec_y = 100\<rparr> \<le> 40 + PLAYER_RADIUS"
  by (simp_all add: example_objects_def Vec2_distance_def Vec2_length_def Vec2_subtract_def
      PLAYER_RADIUS_def)

theorem query_broad_phase_complete_witness:
  "''asteroid_a1'' \<in> set (SpatialHash_query (insert_all (SpatialHash_clear (new_SpatialHash SPATIAL_HASH_CELL_SIZE)) example_objects)
                            \<lparr>vec_x = 130, vec_y = 100\<rparr> PLAYER_RADIUS)
   \<and> distinct (SpatialHash_query (insert_all (SpatialHash_clear (new_SpatialHash SPATIAL_HASH_CELL_SIZE)) example_objects)
                 \<lparr>vec_x = 130, vec_y = 100\<rparr> PLAYER_RADIUS)"
proof -
  note t = query_broad_phase_complete[OF example_objects_facts(1),
      of "new_SpatialHash SPATIAL_HASH_CELL_SIZE" "\<lparr>vec_x = 130, vec_y = 100\<rparr>" PLAYER_RADIUS]
  have c: "0 < cellSize (new_SpatialHash SPATIAL_HASH_CELL_SIZE)" "(0::real) \<le> 40"
    "0 \<le> PLAYER_RADIUS"
    by (simp_all add: new_SpatialHash_def SPATIAL_HASH_CELL_SIZE_def PLAYER_RADIUS_def)
  have a: "''asteroid_a1'' \<in> set (SpatialHash_query (insert_all (SpatialHash_clear (new_SpatialHash SPATIAL_HASH_CELL_SIZE)) example_objects)
                            \<lparr>vec_x = 130, vec_y = 100\<rparr> PLAYER_RADIUS)"
    using t example_objects_facts(2,3) c by blast
  have b: "distinct (SpatialHash_query (insert_all (SpatialHash_clear (new_SpatialHash SPATIAL_HASH_CELL_SIZE)) example_objects)
                 \<lparr>vec_x = 130, vec_y = 100\<rparr> PLAYER_RADIUS)"
    using t by blast
  show ?thesis by (rule conjI[OF a b])
qed

end
